theory Spec2Isabelle
  imports Complex_Main "HOL-Library.Sublist" "HOL-Library.Char_ord" "HOL-Library.List_Lexorder"
begin

section \<open>The relational store of server.js\<close>

text \<open>
  server.js keeps four tables in one SQLite database: \<open>users\<close>, \<open>file_uploads\<close>,
  \<open>download_status\<close> and \<open>operation_logs\<close>. A table is the list of its rows in insertion
  order. The columns of \<open>users\<close> follow the CREATE TABLE statement of the README: \<open>role\<close>
  and \<open>status\<close> carry CHECK constraints, so they are enumerations. The columns of
  \<open>file_uploads\<close> are those the INSERT of the upload handler and the UPDATE statements
  name; \<open>status\<close> and \<open>process_status\<close> stay text, \<open>edit_count\<close>, \<open>remarks\<close> and
  \<open>last_edit_time\<close> may be NULL (the handlers read them through \<open>|| 0\<close> and COALESCE).
  The store always answers: the branches of the source that answer status 500 to an error
  of the database itself are left out. The writes of \<open>logOperation\<close> and
  \<open>recordDownloadStatus\<close>, which the source does not wait for, are listed in the order
  of their calls; the store need not complete them in that order.
\<close>

datatype user_role = Admin | Sub_admin | Merchant | Customer

datatype user_status = Active | Disabled

record user =
  u_id :: int
  username :: string
  u_role :: user_role
  u_status :: user_status
  disable_reason :: "string option"

record file_upload =
  fu_id :: int
  fu_user_id :: int
  fu_merchant_id :: int
  original_name :: string
  file_name :: string
  file_path :: string
  file_size :: nat
  file_type :: string
  mime_type :: string
  remarks :: "string option"
  upload_time :: string
  fu_status :: string
  process_status :: string
  edit_count :: "int option"
  last_edit_time :: "string option"

datatype download_type = Single | Batch

datatype download_outcome = Success | Failed

text \<open>
  One row of the ledger, as \<open>recordDownloadStatus\<close> inserts it. The download time is left
  out: rows are appended, so the list order is the order of the calls.
\<close>

record download_record =
  dl_file_id :: int
  dl_merchant_id :: int
  dl_type :: download_type
  dl_status :: download_outcome
  dl_file_path :: "string option"
  dl_has_error :: bool

text \<open>
  The operation codes that \<open>logOperation\<close> receives in the handlers modelled here (the
  source writes most of them in Chinese); the free-text details are left out.
\<close>

datatype operation =
    Op_edit_remarks | Op_delete_file | Op_restore_file | Op_upload
  | Op_disable_user | Op_enable_user
  | Op_download | Op_download_photo | Op_batch_download | Op_batch_download_selected

record log_entry =
  log_user_id :: int
  log_operation :: operation

record database =
  users :: "user list"
  file_uploads :: "file_upload list"
  download_status :: "download_record list"
  operation_logs :: "log_entry list"

text \<open>
  A handler either answers with an HTTP error status or lets an exception escape
  (\<open>Thrown\<close>); its regular answer is the \<open>Inr\<close> side of the result.
\<close>

datatype failure = Status nat | Thrown

text \<open>
  Route parameters and multipart fields reach the store as TEXT and are compared with
  INTEGER columns. How the store reads a text as an integer is a parameter \<open>coerce\<close> of
  every handler that passes such a text on: \<open>coerce s = Some n\<close> when the store takes the
  text \<open>s\<close> for the integer \<open>n\<close>, \<open>None\<close> when it matches no integer.
\<close>

type_synonym coercion = "string \<Rightarrow> int option"

definition logOperation :: "int \<Rightarrow> operation \<Rightarrow> database \<Rightarrow> database" where
  "logOperation uid opn db =
     db\<lparr>operation_logs := operation_logs db @ [\<lparr>log_user_id = uid, log_operation = opn\<rparr>]\<rparr>"

section \<open>Lifecycle of a file: remarks, soft delete, restore\<close>

text \<open>
  \<open>SELECT * FROM file_uploads WHERE id = ? AND user_id = ?\<close> with the route parameter and
  the caller's id; \<open>db.get\<close> yields the first matching row.
\<close>

definition owned_row :: "coercion \<Rightarrow> string \<Rightarrow> int \<Rightarrow> file_upload \<Rightarrow> bool" where
  "owned_row coerce fileId uid f = (coerce fileId = Some (fu_id f) \<and> fu_user_id f = uid)"

definition get_owned_file :: "coercion \<Rightarrow> database \<Rightarrow> string \<Rightarrow> int \<Rightarrow> file_upload option" where
  "get_owned_file coerce db fileId uid = find (owned_row coerce fileId uid) (file_uploads db)"

text \<open>\<open>file.edit_count || 0\<close>: NULL and 0 both read as 0.\<close>

definition currentEditCount :: "file_upload \<Rightarrow> int" where
  "currentEditCount f = (case edit_count f of None \<Rightarrow> 0 | Some n \<Rightarrow> n)"

record edit_reply =
  editCount :: int
  remainingEdits :: int

text \<open>
  \<open>UPDATE file_uploads SET remarks = ?, edit_count = COALESCE(edit_count, 0) + 1,
  last_edit_time = ? WHERE id = ? AND user_id = ?\<close>.
\<close>

definition update_remarks :: "coercion \<Rightarrow> string \<Rightarrow> int \<Rightarrow> string option \<Rightarrow> string \<Rightarrow>
    file_upload list \<Rightarrow> file_upload list" where
  "update_remarks coerce fileId uid new_remarks updateTime rows =
     map (\<lambda>f. if owned_row coerce fileId uid f
               then f\<lparr>remarks := new_remarks,
                      edit_count := Some (currentEditCount f + 1),
                      last_edit_time := Some updateTime\<rparr>
               else f) rows"

text \<open>
  The validator \<open>isLength({ max: 500 })\<close> counts the characters of the text, not its
  bytes: of a UTF-8 text, the bytes that are not continuation bytes (128 to 191). A
  missing \<open>remarks\<close> reads as the empty text. (Later versions of the validator also leave
  the variation selectors U+FE0E and U+FE0F uncounted; that is not modelled.)
\<close>

definition continuation_byte :: "char \<Rightarrow> bool" where
  "continuation_byte c = (let n = (of_char c :: nat) in 128 \<le> n \<and> n < 192)"

definition text_length :: "string \<Rightarrow> nat" where
  "text_length s = length (filter (\<lambda>c. \<not> continuation_byte c) s)"

text \<open>
  \<open>app.put('/api/uploads/:id/remarks')\<close> runs in two steps with an \<open>await\<close> between them.
  The first step is the validator, the SELECT and the two checks on the row it read: it
  yields that row, or the failure answered.
\<close>

definition edit_read :: "coercion \<Rightarrow> database \<Rightarrow> int \<Rightarrow> string \<Rightarrow> string option \<Rightarrow>
    failure + file_upload" where
  "edit_read coerce db uid fileId new_remarks =
     (if 500 < text_length (case new_remarks of None \<Rightarrow> [] | Some r \<Rightarrow> r) then Inl (Status 400)
      else case get_owned_file coerce db fileId uid of
        None \<Rightarrow> Inl (Status 404)
      | Some file \<Rightarrow>
          if fu_status file = ''deleted'' then Inl (Status 400)
          else if 10 \<le> currentEditCount file then Inl (Status 400)
          else Inr file)"

text \<open>
  The second step is the UPDATE, on the database as it is by then, the log entry and the
  answer; the counts of the answer come from the row that the first step read.
  \<open>updateTime\<close> is the clock reading of the request.
\<close>

definition edit_write :: "coercion \<Rightarrow> database \<Rightarrow> int \<Rightarrow> string \<Rightarrow> string option \<Rightarrow> string \<Rightarrow>
    file_upload \<Rightarrow> edit_reply \<times> database" where
  "edit_write coerce db uid fileId new_remarks updateTime file =
     (\<lparr>editCount = currentEditCount file + 1,
       remainingEdits = 10 - (currentEditCount file + 1)\<rparr>,
      logOperation uid Op_edit_remarks
        (db\<lparr>file_uploads :=
             update_remarks coerce fileId uid new_remarks updateTime (file_uploads db)\<rparr>))"

text \<open>One request handled to its end with no other request in between.\<close>

definition edit_remarks :: "coercion \<Rightarrow> database \<Rightarrow> int \<Rightarrow> string \<Rightarrow> string option \<Rightarrow> string \<Rightarrow>
    (failure + edit_reply) \<times> database" where
  "edit_remarks coerce db uid fileId new_remarks updateTime =
     (case edit_read coerce db uid fileId new_remarks of
        Inl e \<Rightarrow> (Inl e, db)
      | Inr file \<Rightarrow>
          (Inr (fst (edit_write coerce db uid fileId new_remarks updateTime file)),
           snd (edit_write coerce db uid fileId new_remarks updateTime file)))"

text \<open>A remark-edit request: the caller, the route parameter, the body and the clock.\<close>

record edit_request =
  er_user :: int
  er_file :: string
  er_remarks :: "string option"
  er_time :: string

text \<open>
  Requests in flight together. The server handles one callback at a time, so what can
  interleave are the two steps of the requests: \<open>Begin k q\<close> is the first step of the
  request \<open>q\<close>, under the tag \<open>k\<close>; \<open>Finish k\<close> is the second step of the request begun
  under \<open>k\<close>, if its first step passed. Between the two, the row that was read waits with
  the request.
\<close>

datatype event = Begin nat edit_request | Finish nat

fun run_events :: "coercion \<Rightarrow> database \<Rightarrow> (nat \<rightharpoonup> edit_request \<times> file_upload) \<Rightarrow> event list \<Rightarrow>
    database" where
  "run_events coerce db waiting [] = db"
| "run_events coerce db waiting (Begin k q # es) =
     (case edit_read coerce db (er_user q) (er_file q) (er_remarks q) of
        Inl e \<Rightarrow> run_events coerce db waiting es
      | Inr file \<Rightarrow> run_events coerce db (waiting(k \<mapsto> (q, file))) es)"
| "run_events coerce db waiting (Finish k # es) =
     (case waiting k of
        None \<Rightarrow> run_events coerce db waiting es
      | Some (q, file) \<Rightarrow>
          run_events coerce
            (snd (edit_write coerce db (er_user q) (er_file q) (er_remarks q) (er_time q) file))
            (waiting(k := None)) es)"

text \<open>Requests one after another: each finishes before the next begins.\<close>

definition one_by_one :: "edit_request list \<Rightarrow> event list" where
  "one_by_one reqs = concat (map (\<lambda>q. [Begin 0 q, Finish 0]) reqs)"

definition run_edits :: "coercion \<Rightarrow> database \<Rightarrow> edit_request list \<Rightarrow> database" where
  "run_edits coerce db reqs = run_events coerce db Map.empty (one_by_one reqs)"

text \<open>The primary key of \<open>file_uploads\<close>: no two rows share an id.\<close>

definition files_keyed :: "database \<Rightarrow> bool" where
  "files_keyed db = distinct (map fu_id (file_uploads db))"

definition edits_capped :: "database \<Rightarrow> bool" where
  "edits_capped db = list_all (\<lambda>f. currentEditCount f \<le> 10) (file_uploads db)"

text \<open>\<open>UPDATE file_uploads SET status = ? WHERE id = ? AND user_id = ?\<close>.\<close>

definition update_status :: "coercion \<Rightarrow> string \<Rightarrow> int \<Rightarrow> string \<Rightarrow> file_upload list \<Rightarrow>
    file_upload list" where
  "update_status coerce fileId uid st rows =
     map (\<lambda>f. if owned_row coerce fileId uid f then f\<lparr>fu_status := st\<rparr> else f) rows"

text \<open>\<open>app.delete('/api/uploads/:id')\<close>: the soft delete.\<close>

definition delete_upload :: "coercion \<Rightarrow> database \<Rightarrow> int \<Rightarrow> string \<Rightarrow> (failure + unit) \<times> database" where
  "delete_upload coerce db uid fileId =
     (case get_owned_file coerce db fileId uid of
        None \<Rightarrow> (Inl (Status 404), db)
      | Some file \<Rightarrow>
          if fu_status file = ''deleted'' then (Inl (Status 400), db)
          else (Inr (),
                logOperation uid Op_delete_file
                  (db\<lparr>file_uploads := update_status coerce fileId uid ''deleted'' (file_uploads db)\<rparr>)))"

text \<open>\<open>app.put('/api/uploads/:id/restore')\<close>.\<close>

definition restore_upload :: "coercion \<Rightarrow> database \<Rightarrow> int \<Rightarrow> string \<Rightarrow> (failure + unit) \<times> database" where
  "restore_upload coerce db uid fileId =
     (case get_owned_file coerce db fileId uid of
        None \<Rightarrow> (Inl (Status 404), db)
      | Some file \<Rightarrow>
          if fu_status file \<noteq> ''deleted'' then (Inl (Status 400), db)
          else (Inr (),
                logOperation uid Op_restore_file
                  (db\<lparr>file_uploads := update_status coerce fileId uid ''active'' (file_uploads db)\<rparr>)))"

section \<open>Account status: the admin endpoint\<close>

text \<open>
  The principal that \<open>authenticateToken\<close> puts into \<open>req.user\<close>: the id and the role that
  the login handler signed into the token.
\<close>

record principal =
  p_id :: int
  p_role :: user_role

text \<open>\<open>requireAdmin\<close>: the roles \<open>admin\<close> and \<open>sub_admin\<close> pass.\<close>

definition requireAdmin :: "principal \<Rightarrow> bool" where
  "requireAdmin p = (p_role p = Admin \<or> p_role p = Sub_admin)"

text \<open>
  The request of \<open>PATCH /api/admin/users/:id/status\<close>: the route parameter as the text it
  is, and the two body fields (\<open>None\<close>: the field is absent).
\<close>

record status_request =
  sr_id :: string
  sr_status :: "string option"
  sr_reason :: "string option"

text \<open>
  The two validators: \<open>status\<close> is one of \<open>active\<close> and \<open>disabled\<close>; \<open>reason\<close> is optional
  and, when present, at least one character long.
\<close>

definition status_request_valid :: "status_request \<Rightarrow> bool" where
  "status_request_valid r =
     ((sr_status r = Some ''active'' \<or> sr_status r = Some ''disabled'') \<and>
      (case sr_reason r of None \<Rightarrow> True | Some t \<Rightarrow> 1 \<le> length t))"

text \<open>\<open>!reason\<close>: an absent or empty reason.\<close>

definition no_reason :: "string option \<Rightarrow> bool" where
  "no_reason t = (case t of None \<Rightarrow> True | Some s \<Rightarrow> s = [])"

text \<open>The row condition \<open>WHERE id = ?\<close> of the users table, with the route parameter.\<close>

definition user_row :: "coercion \<Rightarrow> string \<Rightarrow> user \<Rightarrow> bool" where
  "user_row coerce userId u = (coerce userId = Some (u_id u))"

text \<open>
  \<open>UPDATE users SET status = ?, disable_reason = ? WHERE id = ?\<close> when disabling,
  \<open>UPDATE users SET status = ?, disable_reason = NULL WHERE id = ?\<close> otherwise.
\<close>

definition update_user_status :: "coercion \<Rightarrow> status_request \<Rightarrow> user list \<Rightarrow> user list" where
  "update_user_status coerce r rows =
     map (\<lambda>u. if user_row coerce (sr_id r) u
               then (if sr_status r = Some ''disabled''
                     then u\<lparr>u_status := Disabled, disable_reason := sr_reason r\<rparr>
                     else u\<lparr>u_status := Active, disable_reason := None\<rparr>)
               else u) rows"

text \<open>
  \<open>app.patch('/api/admin/users/:id/status')\<close>, in the order of the source: the role gate,
  the validators, the reason check, the guard \<open>id === '1'\<close> on the text of the route
  parameter, the lookup of the user, the update (\<open>this.changes === 0\<close> answers 404), the
  log entry.
\<close>

definition set_user_status :: "coercion \<Rightarrow> database \<Rightarrow> principal \<Rightarrow> status_request \<Rightarrow>
    (failure + unit) \<times> database" where
  "set_user_status coerce db p r =
     (if \<not> requireAdmin p then (Inl (Status 403), db)
      else if \<not> status_request_valid r then (Inl (Status 400), db)
      else if sr_status r = Some ''disabled'' \<and> no_reason (sr_reason r) then (Inl (Status 400), db)
      else if sr_id r = ''1'' then (Inl (Status 403), db)
      else case find (user_row coerce (sr_id r)) (users db) of
        None \<Rightarrow> (Inl (Status 404), db)
      | Some u \<Rightarrow>
          if filter (user_row coerce (sr_id r)) (users db) = [] then (Inl (Status 404), db)
          else (Inr (),
                logOperation (p_id p)
                  (if sr_status r = Some ''disabled'' then Op_disable_user else Op_enable_user)
                  (db\<lparr>users := update_user_status coerce r (users db)\<rparr>)))"

section \<open>The duplicate check before an upload\<close>

text \<open>
  The body of \<open>POST /api/check-duplicate-files\<close> is JSON: \<open>merchantId\<close> is a number or a
  text, \<open>fileNames\<close> an array of texts (\<open>None\<close>: the field is absent or, for \<open>fileNames\<close>,
  not an array).
\<close>

datatype body_id = Id_number int | Id_text string

record duplicate_request =
  dr_merchantId :: "body_id option"
  dr_fileNames :: "string list option"

text \<open>\<open>!merchantId\<close>: absent, the number 0 or the empty text.\<close>

definition id_missing :: "body_id option \<Rightarrow> bool" where
  "id_missing m =
     (case m of None \<Rightarrow> True | Some (Id_number n) \<Rightarrow> n = 0 | Some (Id_text s) \<Rightarrow> s = [])"

definition id_matches :: "coercion \<Rightarrow> body_id \<Rightarrow> int \<Rightarrow> bool" where
  "id_matches coerce m n = (case m of Id_number k \<Rightarrow> k = n | Id_text s \<Rightarrow> coerce s = Some n)"

text \<open>The kinds of SQL statement a handler hands to the store.\<close>

datatype statement = Select_stmt | Insert_stmt | Update_stmt | Delete_stmt

text \<open>
  What the handler did: its answer (the names found, or a failure), the statements it
  issued in order, and the database afterwards.
\<close>

record duplicate_result =
  cd_answer :: "failure + string list"
  cd_statements :: "statement list"
  cd_database :: database

text \<open>
  \<open>app.post('/api/check-duplicate-files')\<close>. Its one statement is
  \<open>SELECT original_name FROM file_uploads WHERE user_id = ? AND merchant_id = ? AND
  original_name IN (...)\<close>.
\<close>

definition check_duplicate_files :: "coercion \<Rightarrow> database \<Rightarrow> principal \<Rightarrow> duplicate_request \<Rightarrow>
    duplicate_result" where
  "check_duplicate_files coerce db p req =
     (if p_role p \<noteq> Customer
      then \<lparr>cd_answer = Inl (Status 403), cd_statements = [], cd_database = db\<rparr>
      else case dr_fileNames req of
        None \<Rightarrow> \<lparr>cd_answer = Inl (Status 400), cd_statements = [], cd_database = db\<rparr>
      | Some fileNames \<Rightarrow>
          (case dr_merchantId req of
             None \<Rightarrow> \<lparr>cd_answer = Inl (Status 400), cd_statements = [], cd_database = db\<rparr>
           | Some merchantId \<Rightarrow>
               if id_missing (Some merchantId)
               then \<lparr>cd_answer = Inl (Status 400), cd_statements = [], cd_database = db\<rparr>
               else
                 \<lparr>cd_answer =
                    Inr (map original_name
                          (filter (\<lambda>f. fu_user_id f = p_id p \<and>
                                        id_matches coerce merchantId (fu_merchant_id f) \<and>
                                        original_name f \<in> set fileNames)
                             (file_uploads db))),
                  cd_statements = [Select_stmt],
                  cd_database = db\<rparr>))"

section \<open>Upload\<close>

text \<open>
  A file as multer hands it to the handler: the name the client sent (its bytes; the
  source re-decodes it from latin1 to UTF-8, which leaves the bytes as they are), the MIME
  type, the size in bytes, and the name and path that the disk storage gave it.
\<close>

record upload_file =
  uf_originalname :: string
  uf_mimetype :: string
  uf_size :: nat
  uf_filename :: string
  uf_path :: string

text \<open>
  \<open>path.extname\<close>: the text from the last dot of the last path component on; empty when
  there is no dot, when the only dot leads the component, and for \<open>..\<close>.
\<close>

definition last_component :: "string \<Rightarrow> string" where
  "last_component p = rev (takeWhile (\<lambda>c. c \<noteq> CHR ''/'') (rev p))"

definition extname :: "string \<Rightarrow> string" where
  "extname p =
     (let b = last_component p;
          e = rev (takeWhile (\<lambda>c. c \<noteq> CHR ''.'') (rev b))
      in if length e = length b then []
         else if length e + 1 = length b then []
         else if b = ''..'' then []
         else CHR ''.'' # e)"

text \<open>\<open>toLowerCase\<close> on the letters A to Z; the extensions compared are ASCII.\<close>

definition lower_char :: "char \<Rightarrow> char" where
  "lower_char c =
     (case map_of (zip ''ABCDEFGHIJKLMNOPQRSTUVWXYZ'' ''abcdefghijklmnopqrstuvwxyz'') c of
        None \<Rightarrow> c
      | Some l \<Rightarrow> l)"

definition toLowerCase :: "string \<Rightarrow> string" where
  "toLowerCase s = map lower_char s"

definition imageTypes :: "string list" where
  "imageTypes = [''image/jpeg'', ''image/jpg'', ''image/png'', ''image/gif'', ''image/webp'']"

definition archiveTypes :: "string list" where
  "archiveTypes =
     [''application/zip'', ''application/x-zip-compressed'', ''application/x-rar-compressed'',
      ''application/vnd.rar'', ''application/x-rar'', ''application/x-7z-compressed'']"

definition imageExtensions :: "string list" where
  "imageExtensions = [''.jpg'', ''.jpeg'', ''.png'', ''.gif'', ''.webp'']"

definition archiveExtensions :: "string list" where
  "archiveExtensions = [''.zip'', ''.rar'', ''.7z'']"

definition file_ext :: "upload_file \<Rightarrow> string" where
  "file_ext f = toLowerCase (extname (uf_originalname f))"

text \<open>\<open>fileFilter\<close>: the MIME type is an allowed type, or the extension an allowed one.\<close>

definition fileFilter :: "upload_file \<Rightarrow> bool" where
  "fileFilter f =
     (uf_mimetype f \<in> set (imageTypes @ archiveTypes) \<or>
      file_ext f \<in> set (imageExtensions @ archiveExtensions))"

text \<open>
  \<open>isImage\<close> of the handler: the MIME type starts with \<open>image/\<close>, or the extension is an
  image extension. Every other accepted file is stored with type \<open>archive\<close>.
\<close>

definition isImage :: "upload_file \<Rightarrow> bool" where
  "isImage f = (prefix ''image/'' (uf_mimetype f) \<or> file_ext f \<in> set imageExtensions)"

text \<open>The limits of the multer configuration: 50MB a file, 20 files.\<close>

definition fileSize_limit :: nat where
  "fileSize_limit = 50 * 1024 * 1024"

definition files_limit :: nat where
  "files_limit = 20"

datatype multer_error = LIMIT_FILE_SIZE | LIMIT_FILE_COUNT | Filter_rejected

text \<open>
  \<open>upload.array('files', 20)\<close> with these limits and \<open>fileFilter\<close>, file by file in the order
  of the request; \<open>n\<close> counts the files already taken. The first failure ends the request.
\<close>

fun multer_array :: "nat \<Rightarrow> upload_file list \<Rightarrow> multer_error option" where
  "multer_array n [] = None"
| "multer_array n (f # fs) =
     (if files_limit \<le> n then Some LIMIT_FILE_COUNT
      else if \<not> fileFilter f then Some Filter_rejected
      else if fileSize_limit < uf_size f then Some LIMIT_FILE_SIZE
      else multer_array (Suc n) fs)"

text \<open>The multipart body: the two text fields (\<open>None\<close>: absent) and the files.\<close>

record upload_request =
  up_merchantId :: "string option"
  up_remarks :: "string option"
  up_files :: "upload_file list"

text \<open>\<open>!merchantId\<close> and \<open>remarks || null\<close>: an absent and an empty text alike.\<close>

definition blank :: "string option \<Rightarrow> bool" where
  "blank t = (case t of None \<Rightarrow> True | Some s \<Rightarrow> s = [])"

text \<open>
  The first loop of the handler: the total size and the number of the image files.
\<close>

definition image_totals :: "upload_file list \<Rightarrow> nat \<times> nat" where
  "image_totals files =
     fold (\<lambda>f (totalImageSize, imageCount).
             if isImage f then (totalImageSize + uf_size f, imageCount + 1)
             else (totalImageSize, imageCount)) files (0, 0)"

text \<open>
  \<open>this.lastID\<close> of an INSERT into an AUTOINCREMENT table whose rows are never removed:
  one more than the largest id so far.
\<close>

definition next_id :: "file_upload list \<Rightarrow> int" where
  "next_id rows = fold max (map fu_id rows) 0 + 1"

text \<open>
  Modelled from the spec: the values of the columns of \<open>file_uploads\<close> that the INSERT of
  the upload handler does not name (the schema script of the table is not among the
  sources). A file is created \<open>active\<close>, its process status is \<open>received\<close>, and it has no
  edit yet.
\<close>

definition default_status :: string where
  "default_status = ''active''"

definition default_process_status :: string where
  "default_process_status = ''received''"

definition default_edit_count :: "int option" where
  "default_edit_count = Some 0"

text \<open>
  The row of one INSERT. The statement names ten columns; \<open>merchant_id\<close> receives the
  text of the form field, which the INTEGER column stores as the integer \<open>mid\<close> that the
  merchant lookup matched.
\<close>

definition new_row :: "int \<Rightarrow> int \<Rightarrow> int \<Rightarrow> string option \<Rightarrow> string \<Rightarrow> upload_file \<Rightarrow> file_upload" where
  "new_row i uid mid rem uploadTime f =
     \<lparr>fu_id = i, fu_user_id = uid, fu_merchant_id = mid,
      original_name = uf_originalname f, file_name = uf_filename f, file_path = uf_path f,
      file_size = uf_size f, file_type = (if isImage f then ''image'' else ''archive''),
      mime_type = uf_mimetype f, remarks = (if blank rem then None else rem),
      upload_time = uploadTime, fu_status = default_status,
      process_status = default_process_status,
      edit_count = default_edit_count, last_edit_time = None\<rparr>"

text \<open>The second loop: one INSERT a file, in order.\<close>

fun insert_files :: "int \<Rightarrow> int \<Rightarrow> string option \<Rightarrow> string \<Rightarrow> upload_file list \<Rightarrow>
    file_upload list \<Rightarrow> file_upload list" where
  "insert_files uid mid rem uploadTime [] rows = rows"
| "insert_files uid mid rem uploadTime (f # fs) rows =
     insert_files uid mid rem uploadTime fs (rows @ [new_row (next_id rows) uid mid rem uploadTime f])"

record saved_file =
  sf_id :: int
  sf_originalName :: string
  sf_type :: string

text \<open>
  \<open>app.post('/api/upload')\<close> behind \<open>upload.array\<close> and \<open>handleMulterError\<close>, which answers
  every multer failure with status 400. The merchant is the first row of
  \<open>SELECT id, username, status FROM users WHERE id = ? AND role = 'merchant'\<close>.
\<close>

definition upload :: "coercion \<Rightarrow> database \<Rightarrow> int \<Rightarrow> upload_request \<Rightarrow> string \<Rightarrow>
    (failure + saved_file list) \<times> database" where
  "upload coerce db uid req uploadTime =
     (case multer_array 0 (up_files req) of
        Some err \<Rightarrow> (Inl (Status 400), db)
      | None \<Rightarrow>
          if blank (up_merchantId req) then (Inl (Status 400), db)
          else if up_files req = [] then (Inl (Status 400), db)
          else case find (\<lambda>u. user_row coerce (the (up_merchantId req)) u \<and> u_role u = Merchant)
                     (users db) of
            None \<Rightarrow> (Inl (Status 400), db)
          | Some merchant \<Rightarrow>
              if u_status merchant = Disabled then (Inl (Status 400), db)
              else if 20 < snd (image_totals (up_files req)) then (Inl (Status 400), db)
              else if 50 * 1024 * 1024 < fst (image_totals (up_files req))
              then (Inl (Status 400), db)
              else
                (let rows = insert_files uid (u_id merchant) (up_remarks req) uploadTime
                              (up_files req) (file_uploads db)
                 in (Inr (map (\<lambda>r. \<lparr>sf_id = fu_id r, sf_originalName = original_name r,
                                      sf_type = file_type r\<rparr>)
                            (drop (length (file_uploads db)) rows)),
                     logOperation uid Op_upload (db\<lparr>file_uploads := rows\<rparr>))))"

definition upload_accepted :: "coercion \<Rightarrow> database \<Rightarrow> int \<Rightarrow> upload_request \<Rightarrow> string \<Rightarrow> bool" where
  "upload_accepted coerce db uid req uploadTime =
     (case fst (upload coerce db uid req uploadTime) of Inl e \<Rightarrow> False | Inr saved \<Rightarrow> True)"

section \<open>Lists of files: filters, pages, queries\<close>

subsection \<open>Numbers from the query string\<close>

text \<open>
  \<open>parseInt\<close> on a text: blanks are skipped, a sign is read, \<open>0x\<close> switches to base 16,
  and the longest run of digits of the base is the value; no digit yields NaN (\<open>None\<close>).
  The blanks are the ASCII ones, and the value is exact (no rounding to a double).
\<close>

definition js_space :: "char \<Rightarrow> bool" where
  "js_space c = ((of_char c :: nat) \<in> {9, 10, 11, 12, 13, 32})"

definition radix_digit :: "nat \<Rightarrow> char \<Rightarrow> nat option" where
  "radix_digit radix c =
     (let n = (of_char c :: nat);
          v = (if 48 \<le> n \<and> n \<le> 57 then n - 48
               else if 97 \<le> n \<and> n \<le> 102 then n - 87
               else if 65 \<le> n \<and> n \<le> 70 then n - 55
               else 16)
      in if v < radix then Some v else None)"

fun leading_value :: "nat \<Rightarrow> string \<Rightarrow> nat option \<Rightarrow> nat option" where
  "leading_value radix [] acc = acc"
| "leading_value radix (c # cs) acc =
     (case radix_digit radix c of
        None \<Rightarrow> acc
      | Some d \<Rightarrow> leading_value radix cs (Some (radix * (case acc of None \<Rightarrow> 0 | Some a \<Rightarrow> a) + d)))"

definition unsigned_value :: "string \<Rightarrow> nat option" where
  "unsigned_value s =
     (if prefix ''0x'' s \<or> prefix ''0X'' s then leading_value 16 (drop 2 s) None
      else leading_value 10 s None)"

definition js_parseInt :: "string \<Rightarrow> int option" where
  "js_parseInt s =
     (case dropWhile js_space s of
        [] \<Rightarrow> None
      | c # cs \<Rightarrow>
          if c = CHR ''-'' then map_option (\<lambda>n. - int n) (unsigned_value cs)
          else if c = CHR ''+'' then map_option int (unsigned_value cs)
          else map_option int (unsigned_value (c # cs)))"

text \<open>
  \<open>parseInt(x) || d\<close> for a query parameter \<open>x\<close> whose default, when absent, is \<open>d\<close> too:
  NaN and 0 give \<open>d\<close>.
\<close>

definition number_or :: "int \<Rightarrow> string option \<Rightarrow> int" where
  "number_or d x =
     (case x of
        None \<Rightarrow> d
      | Some s \<Rightarrow> (case js_parseInt s of None \<Rightarrow> d | Some n \<Rightarrow> if n = 0 then d else n))"

text \<open>\<open>Math.ceil(total / limitNum)\<close>, in exact arithmetic.\<close>

definition ceil_div :: "int \<Rightarrow> int \<Rightarrow> int" where
  "ceil_div rows limitNum = - ((- rows) div limitNum)"

subsection \<open>Statements and their bound values\<close>

text \<open>A value bound to a placeholder: a number or a text.\<close>

datatype sql_value = V_int int | V_text string

text \<open>
  The conditions that the handlers push onto \<open>whereConditions\<close>, in the order of the
  source: \<open>fu.user_id = ?\<close>, \<open>fu.merchant_id = ?\<close>, \<open>fu.process_status = ?\<close>,
  \<open>fu.upload_time >= ?\<close>, and \<open>fu.upload_time >= ? AND fu.upload_time <= ?\<close>.
\<close>

datatype condition =
  User_id_is | Merchant_id_is | Process_status_is | Uploaded_from | Uploaded_between

fun placeholders :: "condition \<Rightarrow> nat" where
  "placeholders Uploaded_between = 2"
| "placeholders c = 1"

text \<open>An INTEGER column against a bound value: a text goes through the store's reading.\<close>

fun int_column_is :: "coercion \<Rightarrow> int \<Rightarrow> sql_value \<Rightarrow> bool" where
  "int_column_is coerce n (V_int k) = (n = k)"
| "int_column_is coerce n (V_text s) = (coerce s = Some n)"

text \<open>
  One condition on one row, with the values bound to its placeholders. The TEXT columns
  are compared bytewise, as the ISO timestamps need it. A missing value is NULL and holds
  for no row; the handlers bind texts only to the TEXT columns.
\<close>

fun cond_holds :: "coercion \<Rightarrow> condition \<Rightarrow> sql_value list \<Rightarrow> file_upload \<Rightarrow> bool" where
  "cond_holds coerce User_id_is [v] f = int_column_is coerce (fu_user_id f) v"
| "cond_holds coerce Merchant_id_is [v] f = int_column_is coerce (fu_merchant_id f) v"
| "cond_holds coerce Process_status_is [V_text s] f = (process_status f = s)"
| "cond_holds coerce Uploaded_from [V_text s] f = (s \<le> upload_time f)"
| "cond_holds coerce Uploaded_between [V_text s, V_text e] f =
     (s \<le> upload_time f \<and> upload_time f \<le> e)"
| "cond_holds coerce c vs f = False"

text \<open>\<open>whereConditions.join(' AND ')\<close>: the placeholders take the values left to right.\<close>

fun where_holds :: "coercion \<Rightarrow> condition list \<Rightarrow> sql_value list \<Rightarrow> file_upload \<Rightarrow> bool" where
  "where_holds coerce [] vs f = True"
| "where_holds coerce (c # cs) vs f =
     (cond_holds coerce c (take (placeholders c) vs) f \<and>
      where_holds coerce cs (drop (placeholders c) vs) f)"

text \<open>
  The values that a statement binds to its WHERE clause: those after the \<open>j\<close>
  placeholders that stand before the clause (in a JOIN), as many as the clause has.
\<close>

definition where_values :: "nat \<Rightarrow> condition list \<Rightarrow> sql_value list \<Rightarrow> sql_value list" where
  "where_values j conds params = take (sum_list (map placeholders conds)) (drop j params)"

text \<open>The WHERE clause of a statement as a predicate on rows, once its values are bound.\<close>

definition bound_where :: "coercion \<Rightarrow> nat \<Rightarrow> condition list \<Rightarrow> sql_value list \<Rightarrow>
    file_upload \<Rightarrow> bool" where
  "bound_where coerce j conds params = where_holds coerce conds (where_values j conds params)"

text \<open>
  \<open>LIMIT ? OFFSET ?\<close>: a negative limit is no limit, a negative offset is none. The
  numbers are exact integers here; one beyond the 64-bit range, which the store refuses,
  is not modelled.
\<close>

definition limit_offset :: "int \<Rightarrow> int \<Rightarrow> 'a list \<Rightarrow> 'a list" where
  "limit_offset l off rows =
     (let rest = drop (nat off) rows in if l < 0 then rest else take (nat l) rest)"

text \<open>\<open>ORDER BY\<close>: an insertion sort that keeps rows of equal rank in table order.\<close>

fun insert_ordered :: "('a \<Rightarrow> 'a \<Rightarrow> bool) \<Rightarrow> 'a \<Rightarrow> 'a list \<Rightarrow> 'a list" where
  "insert_ordered precedes x [] = [x]"
| "insert_ordered precedes x (y # ys) =
     (if precedes x y then x # y # ys else y # insert_ordered precedes x ys)"

definition order_by :: "('a \<Rightarrow> 'a \<Rightarrow> bool) \<Rightarrow> 'a list \<Rightarrow> 'a list" where
  "order_by precedes rows = foldr (insert_ordered precedes) rows []"

text \<open>
  \<open>xs LEFT JOIN ys ON on\<close>: every row of \<open>xs\<close> once for each partner, and once with NULL
  when it has none.
\<close>

definition left_join :: "('a \<Rightarrow> 'b \<Rightarrow> bool) \<Rightarrow> 'a list \<Rightarrow> 'b list \<Rightarrow> ('a \<times> 'b option) list" where
  "left_join on xs ys =
     concat (map (\<lambda>x. case filter (on x) ys of
                         [] \<Rightarrow> [(x, None)]
                       | m # ms \<Rightarrow> map (\<lambda>y. (x, Some y)) (m # ms)) xs)"

text \<open>
  \<open>ORDER BY CASE WHEN fu.status = 'deleted' THEN 1 ELSE 0 END, fu.upload_time DESC\<close> of
  the customer list, and \<open>CASE WHEN fu.status = 'active' THEN 0 ELSE 1 END\<close> of the
  merchant list.
\<close>

definition deleted_last :: "file_upload \<Rightarrow> nat" where
  "deleted_last f = (if fu_status f = ''deleted'' then 1 else 0)"


definition listed_before :: "(file_upload \<Rightarrow> nat) \<Rightarrow> file_upload \<Rightarrow> file_upload \<Rightarrow> bool" where
  "listed_before rank f g =
     (rank f < rank g \<or> (rank f = rank g \<and> upload_time g \<le> upload_time f))"

subsection \<open>Building the filters\<close>

text \<open>
  The three arrays that both list handlers fill side by side.
\<close>

record query_build =
  whereConditions :: "condition list"
  queryParams :: "sql_value list"
  countParams :: "sql_value list"

text \<open>
  One filter step of the source: the condition is pushed onto \<open>whereConditions\<close>, its
  values onto \<open>queryParams\<close> and onto \<open>countParams\<close>.
\<close>

definition push_filter :: "condition \<Rightarrow> sql_value list \<Rightarrow> query_build \<Rightarrow> query_build" where
  "push_filter c vs q =
     q\<lparr>whereConditions := whereConditions q @ [c],
       queryParams := queryParams q @ vs,
       countParams := countParams q @ vs\<rparr>"

record list_request =
  lq_page :: "string option"
  lq_limit :: "string option"
  lq_status :: "string option"
  lq_timeFilter :: "string option"
  lq_startDate :: "string option"
  lq_endDate :: "string option"

text \<open>
  What the handlers take from \<open>Date\<close>: the ISO texts of local midnight today, of seven and
  of thirty days ago, and of the first and the last millisecond (UTC) of a day given as
  text, \<open>None\<close> when the text is no date and \<open>toISOString\<close> throws.
\<close>

record clock =
  today_start :: string
  week_ago :: string
  month_ago :: string
  day_begin :: "string \<Rightarrow> string option"
  day_end :: "string \<Rightarrow> string option"

definition status_filter :: "string option \<Rightarrow> query_build \<Rightarrow> query_build" where
  "status_filter status q =
     (case status of
        None \<Rightarrow> q
      | Some s \<Rightarrow>
          if s \<noteq> [] \<and> s \<in> set [''received'', ''processing'', ''shipped'']
          then push_filter Process_status_is [V_text s] q
          else q)"

text \<open>The \<open>switch (timeFilter)\<close>; \<open>None\<close> when a date of the custom range throws.\<close>

definition time_filter :: "clock \<Rightarrow> list_request \<Rightarrow> query_build \<Rightarrow> query_build option" where
  "time_filter clk req q =
     (case lq_timeFilter req of
        None \<Rightarrow> Some q
      | Some tf \<Rightarrow>
          if tf = ''today'' then Some (push_filter Uploaded_from [V_text (today_start clk)] q)
          else if tf = ''week'' then Some (push_filter Uploaded_from [V_text (week_ago clk)] q)
          else if tf = ''month'' then Some (push_filter Uploaded_from [V_text (month_ago clk)] q)
          else if tf = ''custom'' then
            (if blank (lq_startDate req) \<or> blank (lq_endDate req) then Some q
             else case day_begin clk (the (lq_startDate req)) of
                    None \<Rightarrow> None
                  | Some s \<Rightarrow>
                      (case day_end clk (the (lq_endDate req)) of
                         None \<Rightarrow> None
                       | Some e \<Rightarrow> Some (push_filter Uploaded_between [V_text s, V_text e] q)))
          else Some q)"

text \<open>
  The shape that the filters keep: the values of \<open>countParams\<close> are exactly those of the
  WHERE clause, and \<open>queryParams\<close> carries the same values after its first \<open>j\<close>.
\<close>

definition aligned :: "nat \<Rightarrow> query_build \<Rightarrow> bool" where
  "aligned j q =
     (drop j (queryParams q) = countParams q \<and> j \<le> length (queryParams q) \<and>
      length (countParams q) = sum_list (map placeholders (whereConditions q)))"

text \<open>The first condition and its value stay in front through every filter step.\<close>

definition own_rows_first :: "int \<Rightarrow> query_build \<Rightarrow> bool" where
  "own_rows_first uid q =
     (\<exists>cs vs. whereConditions q = User_id_is # cs \<and> countParams q = V_int uid # vs)"

subsection \<open>The customer's list\<close>

text \<open>
  The arrays of \<open>GET /api/uploads\<close> just before the two statements run: the caller's id
  first, the filters, and \<open>LIMIT\<close> and \<open>OFFSET\<close> at the end of \<open>queryParams\<close>.
\<close>

definition uploads_build :: "clock \<Rightarrow> int \<Rightarrow> list_request \<Rightarrow> query_build option" where
  "uploads_build clk uid req =
     map_option
       (\<lambda>q. q\<lparr>queryParams := queryParams q @
                 [V_int (number_or 10 (lq_limit req)),
                  V_int ((number_or 1 (lq_page req) - 1) * number_or 10 (lq_limit req))]\<rparr>)
       (time_filter clk req
          (status_filter (lq_status req)
             \<lparr>whereConditions = [User_id_is], queryParams = [V_int uid], countParams = [V_int uid]\<rparr>))"

text \<open>
  A listed row: the row of \<open>file_uploads\<close> whose columns the SELECT projects, and the
  joined merchant name.
\<close>

record listed_file =
  lf_file :: file_upload
  lf_merchant_name :: "string option"

text \<open>
  The list statement of the customer's list. Its placeholders are those of the WHERE
  clause, then \<open>LIMIT ? OFFSET ?\<close>; any other number of values is an error of the store.
\<close>

definition uploads_select :: "coercion \<Rightarrow> database \<Rightarrow> condition list \<Rightarrow> sql_value list \<Rightarrow>
    listed_file list option" where
  "uploads_select coerce db conds params =
     (case drop (sum_list (map placeholders conds)) params of
        [V_int l, V_int off] \<Rightarrow>
          Some (map (\<lambda>(f, u). \<lparr>lf_file = f, lf_merchant_name = map_option username u\<rparr>)
                 (limit_offset l off
                    (order_by (\<lambda>a b. listed_before deleted_last (fst a) (fst b))
                       (filter (\<lambda>(f, u). bound_where coerce 0 conds params f)
                          (left_join (\<lambda>f u. fu_merchant_id f = u_id u)
                             (file_uploads db) (users db))))))
      | _ \<Rightarrow> None)"

text \<open>\<open>SELECT COUNT(*) as total FROM file_uploads fu WHERE ...\<close>.\<close>

definition count_select :: "coercion \<Rightarrow> database \<Rightarrow> condition list \<Rightarrow> sql_value list \<Rightarrow> int option" where
  "count_select coerce db conds params =
     (if length params = sum_list (map placeholders conds)
      then Some (int (length (filter (bound_where coerce 0 conds params)
                               (file_uploads db))))
      else None)"

record 'a page_of =
  pg_items :: "'a list"
  pg_page :: int
  pg_limit :: int
  pg_total :: int
  pg_pages :: int

text \<open>
  \<open>app.get('/api/uploads')\<close>: the list statement, then the count statement. An exception
  of the filter code is answered by the framework with status 500, like an error of the
  store.
\<close>

definition list_uploads :: "coercion \<Rightarrow> clock \<Rightarrow> database \<Rightarrow> int \<Rightarrow> list_request \<Rightarrow>
    failure + listed_file page_of" where
  "list_uploads coerce clk db uid req =
     (case uploads_build clk uid req of
        None \<Rightarrow> Inl (Status 500)
      | Some q \<Rightarrow>
          (case uploads_select coerce db (whereConditions q) (queryParams q) of
             None \<Rightarrow> Inl (Status 500)
           | Some files \<Rightarrow>
               (case count_select coerce db (whereConditions q) (countParams q) of
                  None \<Rightarrow> Inl (Status 500)
                | Some totalRows \<Rightarrow>
                    Inr \<lparr>pg_items = files,
                         pg_page = number_or 1 (lq_page req),
                         pg_limit = number_or 10 (lq_limit req),
                         pg_total = totalRows,
                         pg_pages = ceil_div totalRows (number_or 10 (lq_limit req))\<rparr>)))"

subsection \<open>The merchant's list of one customer's photos\<close>





section \<open>Downloads\<close>

text \<open>
  What a download handler does, step by step in the order of the source: rows handed to
  \<open>recordDownloadStatus\<close>, entries handed to \<open>logOperation\<close>, a JSON answer with a status,
  a file handed to \<open>res.sendFile\<close>, and the calls on the archive.
\<close>

datatype action =
    Record_download download_record
  | Log_operation int operation
  | Respond nat
  | Send_file string
  | Archive_file string string
  | Archive_finalize
  | Archive_destroy

text \<open>
  What becomes of a stream after the handler has started it: the archive ends, or fails
  (with the response headers already sent or not); \<open>res.sendFile\<close> delivers the file or
  fails.
\<close>

datatype archive_outcome = Archive_end | Archive_error bool

record transfer =
  archive_result :: archive_outcome
  file_sent :: bool

definition download_row :: "int \<Rightarrow> int \<Rightarrow> download_type \<Rightarrow> download_outcome \<Rightarrow> string option \<Rightarrow>
    download_record" where
  "download_row fileId merchantId kind outcome filePath =
     \<lparr>dl_file_id = fileId, dl_merchant_id = merchantId, dl_type = kind, dl_status = outcome,
      dl_file_path = filePath, dl_has_error = (outcome = Failed)\<rparr>"

text \<open>The rows that a run of actions adds to the ledger, in order.\<close>

fun ledger_rows :: "action list \<Rightarrow> download_record list" where
  "ledger_rows [] = []"
| "ledger_rows (Record_download r # acts) = r # ledger_rows acts"
| "ledger_rows (a # acts) = ledger_rows acts"

text \<open>The names under which files were added to the archive, in order.\<close>

fun archived_names :: "action list \<Rightarrow> string list" where
  "archived_names [] = []"
| "archived_names (Archive_file p n # acts) = n # archived_names acts"
| "archived_names (a # acts) = archived_names acts"

text \<open>
  The database after the writes of a run of actions, taken in the order of their calls.
\<close>

fun perform :: "action list \<Rightarrow> database \<Rightarrow> database" where
  "perform [] db = db"
| "perform (Record_download r # acts) db =
     perform acts (db\<lparr>download_status := download_status db @ [r]\<rparr>)"
| "perform (Log_operation uid opn # acts) db = perform acts (logOperation uid opn db)"
| "perform (a # acts) db = perform acts db"

text \<open>
  The loop \<open>photos.forEach\<close> of both batch handlers up to its last element: a file that
  is on disk is added to the archive under its original name and counted, any other one
  gets a failed ledger row. \<open>disk n\<close> says that \<open>uploads/n\<close> exists.
\<close>

definition add_files :: "(string \<Rightarrow> bool) \<Rightarrow> int \<Rightarrow> file_upload list \<Rightarrow> action list \<times> nat" where
  "add_files disk mid photos =
     fold (\<lambda>photo (acts, addedCount).
             if disk (file_name photo)
             then (acts @ [Archive_file (file_name photo) (original_name photo)], addedCount + 1)
             else (acts @ [Record_download (download_row (fu_id photo) mid Batch Failed None)],
                   addedCount))
       photos ([], 0)"

text \<open>
  The archive part of both batch handlers, for the photos the query returned: the loop,
  then at its last element \<open>archive.destroy()\<close> and status 404 when nothing was added,
  \<open>archive.finalize()\<close> otherwise; then the handler of the archive's \<open>end\<close> event, which
  records a success row for each of \<open>photos\<close> and logs, or the handler of its \<open>error\<close>
  event, which records a failed row for each of them.
\<close>

definition build_archive :: "(string \<Rightarrow> bool) \<Rightarrow> transfer \<Rightarrow> int \<Rightarrow> string \<Rightarrow> operation \<Rightarrow>
    file_upload list \<Rightarrow> action list" where
  "build_archive disk xfer mid zipFileName opn photos =
     (if photos = [] then []
      else fst (add_files disk mid photos) @
        (if snd (add_files disk mid photos) = 0 then [Archive_destroy, Respond 404]
         else Archive_finalize #
           (case archive_result xfer of
              Archive_end \<Rightarrow>
                map (\<lambda>photo. Record_download
                       (download_row (fu_id photo) mid Batch Success (Some zipFileName))) photos @
                [Log_operation mid opn]
            | Archive_error headersSent \<Rightarrow>
                map (\<lambda>photo. Record_download (download_row (fu_id photo) mid Batch Failed None))
                  photos @
                (if headersSent then [] else [Respond 500]))))"

text \<open>\<open>customer ? customer.username : `customer_${customerId}`\<close>.\<close>

definition customer_name :: "coercion \<Rightarrow> database \<Rightarrow> string \<Rightarrow> string" where
  "customer_name coerce db customerId =
     (case find (user_row coerce customerId) (users db) of
        None \<Rightarrow> ''customer_'' @ customerId
      | Some customer \<Rightarrow> username customer)"

text \<open>
  \<open>SELECT * FROM file_uploads WHERE user_id = ? AND merchant_id = ? AND status = "active"\<close>.
\<close>

definition active_photos :: "coercion \<Rightarrow> database \<Rightarrow> string \<Rightarrow> int \<Rightarrow> file_upload list" where
  "active_photos coerce db customerId mid =
     filter (\<lambda>f. coerce customerId = Some (fu_user_id f) \<and> fu_merchant_id f = mid \<and>
                 fu_status f = ''active'') (file_uploads db)"

text \<open>
  \<open>app.get('/api/merchant/customer/:customerId/download-all')\<close>. The principal is \<open>None\<close>
  when no valid token came with the request; \<open>stamp\<close> is the text of \<open>Date.now()\<close>.
\<close>

definition download_all :: "coercion \<Rightarrow> (string \<Rightarrow> bool) \<Rightarrow> transfer \<Rightarrow> database \<Rightarrow>
    principal option \<Rightarrow> string \<Rightarrow> string \<Rightarrow> action list" where
  "download_all coerce disk xfer db who customerId stamp =
     (case who of
        None \<Rightarrow> [Respond 401]
      | Some p \<Rightarrow>
          if p_role p \<noteq> Merchant then [Respond 403]
          else if active_photos coerce db customerId (p_id p) = [] then [Respond 404]
          else build_archive disk xfer (p_id p)
                 (customer_name coerce db customerId @ ''_photos_'' @ stamp @ ''.zip'')
                 Op_batch_download
                 (active_photos coerce db customerId (p_id p)))"

text \<open>
  The query parameter \<open>photoIds\<close>: a text, an array of texts, or something else.
\<close>

datatype query_value = Q_text string | Q_array "string list" | Q_other

text \<open>\<open>split(',')\<close>.\<close>

fun split_commas :: "string \<Rightarrow> string \<Rightarrow> string list" where
  "split_commas cur [] = [rev cur]"
| "split_commas cur (c # cs) =
     (if c = CHR '','' then rev cur # split_commas [] cs else split_commas (c # cur) cs)"

definition js_trim :: "string \<Rightarrow> string" where
  "js_trim s = rev (dropWhile js_space (rev (dropWhile js_space s)))"

text \<open>
  From \<open>photoIds\<close> to \<open>photoIdArray\<close>: the split, then \<open>parseInt\<close> of every trimmed part,
  the NaN dropped. A missing or empty parameter and one of another shape have none.
\<close>

definition photo_id_array :: "query_value option \<Rightarrow> int list option" where
  "photo_id_array photoIds =
     (case photoIds of
        None \<Rightarrow> None
      | Some Q_other \<Rightarrow> None
      | Some (Q_array parts) \<Rightarrow> Some (List.map_filter (\<lambda>s. js_parseInt (js_trim s)) parts)
      | Some (Q_text s) \<Rightarrow>
          if s = [] then None
          else Some (List.map_filter (\<lambda>s. js_parseInt (js_trim s))
                       (if CHR '','' \<in> set s then split_commas [] s else [s])))"

text \<open>
  \<open>SELECT * FROM file_uploads WHERE id IN (...) AND user_id = ? AND merchant_id = ? AND
  status = "active"\<close>.
\<close>

definition selected_photos :: "coercion \<Rightarrow> database \<Rightarrow> int list \<Rightarrow> string \<Rightarrow> int \<Rightarrow>
    file_upload list" where
  "selected_photos coerce db ids customerId mid =
     filter (\<lambda>f. fu_id f \<in> set ids \<and> coerce customerId = Some (fu_user_id f) \<and>
                 fu_merchant_id f = mid \<and> fu_status f = ''active'') (file_uploads db)"

text \<open>\<open>String(n)\<close> for a count.\<close>

fun decimal :: "nat \<Rightarrow> string" where
  "decimal n =
     (if n < 10 then [char_of (48 + n)] else decimal (n div 10) @ [char_of (48 + n mod 10)])"

text \<open>
  The branch \<open>photos.length === 1\<close> of the selected download: the file is missing and a
  failed row of type \<open>single\<close> goes with status 404, or a success row of type \<open>single\<close> is
  recorded, the download is logged, and then the file is handed to \<open>res.sendFile\<close>, whose
  outcome the handler does not observe.
\<close>

definition send_single :: "(string \<Rightarrow> bool) \<Rightarrow> int \<Rightarrow> file_upload \<Rightarrow> action list" where
  "send_single disk mid photo =
     (if \<not> disk (file_name photo)
      then [Record_download (download_row (fu_id photo) mid Single Failed None), Respond 404]
      else [Record_download (download_row (fu_id photo) mid Single Success (Some (original_name photo))),
            Log_operation mid Op_download,
            Send_file (file_name photo)])"

text \<open>\<open>app.get('/api/merchant/customer/:customerId/download-selected')\<close>.\<close>

definition download_selected :: "coercion \<Rightarrow> (string \<Rightarrow> bool) \<Rightarrow> transfer \<Rightarrow> database \<Rightarrow>
    principal option \<Rightarrow> string \<Rightarrow> query_value option \<Rightarrow> string \<Rightarrow> action list" where
  "download_selected coerce disk xfer db who customerId photoIds stamp =
     (case who of
        None \<Rightarrow> [Respond 401]
      | Some p \<Rightarrow>
          if p_role p \<noteq> Merchant then [Respond 403]
          else case photo_id_array photoIds of
            None \<Rightarrow> [Respond 400]
          | Some ids \<Rightarrow>
              if ids = [] then [Respond 400]
              else case selected_photos coerce db ids customerId (p_id p) of
                [] \<Rightarrow> [Respond 404]
              | [photo] \<Rightarrow> send_single disk (p_id p) photo
              | photos \<Rightarrow>
                  build_archive disk xfer (p_id p)
                    (customer_name coerce db customerId @ ''_selected_'' @
                       decimal (length photos) @ ''photos_'' @ stamp @ ''.zip'')
                    Op_batch_download_selected photos)"

text \<open>
  \<open>app.get('/api/merchant/photo/:photoId/download')\<close>, the download of one photo: here
  the ledger row is written in the callback of \<open>res.sendFile\<close>, after the transfer. The
  success row stores \<open>path.join(__dirname, 'uploads', photo.file_name)\<close>; \<open>dirname\<close> is the
  directory of the server.
\<close>

definition download_photo :: "coercion \<Rightarrow> string \<Rightarrow> (string \<Rightarrow> bool) \<Rightarrow> transfer \<Rightarrow> database \<Rightarrow>
    principal option \<Rightarrow> string \<Rightarrow> action list" where
  "download_photo coerce dirname disk xfer db who photoId =
     (case who of
        None \<Rightarrow> [Respond 401]
      | Some p \<Rightarrow>
          if p_role p \<noteq> Merchant then [Respond 403]
          else case find (\<lambda>f. coerce photoId = Some (fu_id f) \<and> fu_merchant_id f = p_id p \<and>
                              fu_status f = ''active'') (file_uploads db) of
            None \<Rightarrow> [Respond 404]
          | Some photo \<Rightarrow>
              if \<not> disk (file_name photo)
              then [Record_download (download_row (fu_id photo) (p_id p) Single Failed None),
                    Respond 404]
              else Send_file (file_name photo) #
                (if file_sent xfer
                 then [Record_download (download_row (fu_id photo) (p_id p) Single Success
                          (Some (dirname @ ''/uploads/'' @ file_name photo))),
                       Log_operation (p_id p) Op_download_photo]
                 else [Record_download (download_row (fu_id photo) (p_id p) Single Failed None)]))"

section \<open>How SQLite reads a text as an integer\<close>

text \<open>
  The instance of \<open>coerce\<close> used for concrete runs. Comparing an INTEGER column with a TEXT
  parameter, SQLite applies numeric affinity to the text: blanks around it are dropped,
  a sign is read, and a run of decimal digits is the integer it denotes (so \<open>01\<close> is 1).
  Only integer literals are covered here; a text with a fraction or an exponent, which
  SQLite compares as a REAL, reads as no integer.
\<close>

definition sql_space :: "char \<Rightarrow> bool" where
  "sql_space c =
     (c = CHR '' '' \<or> c = CHR 0x09 \<or> c = CHR 0x0A \<or> c = CHR 0x0B \<or> c = CHR 0x0C \<or>
      c = CHR 0x0D)"

text \<open>A decimal digit is one of the bytes 48 to 57.\<close>

definition digit_value :: "char \<Rightarrow> nat option" where
  "digit_value c =
     (let n = (of_char c :: nat) in if 48 \<le> n \<and> n \<le> 57 then Some (n - 48) else None)"

fun digits_value :: "nat \<Rightarrow> string \<Rightarrow> nat option" where
  "digits_value acc [] = Some acc"
| "digits_value acc (c # cs) =
     (case digit_value c of None \<Rightarrow> None | Some d \<Rightarrow> digits_value (10 * acc + d) cs)"

definition sql_trim :: "string \<Rightarrow> string" where
  "sql_trim s = rev (dropWhile sql_space (rev (dropWhile sql_space s)))"

definition sqlite_int_of_text :: coercion where
  "sqlite_int_of_text s =
     (case sql_trim s of
        [] \<Rightarrow> None
      | c # cs \<Rightarrow>
          if c = CHR ''-''
          then (if cs = [] then None else map_option (\<lambda>n. - int n) (digits_value 0 cs))
          else if c = CHR ''+''
          then (if cs = [] then None else map_option int (digits_value 0 cs))
          else map_option int (digits_value 0 (c # cs)))"

section \<open>A small database for concrete runs\<close>

text \<open>
  The bootstrap admin, a sub-admin, a merchant and a customer (the ids of the accounts
  that the mock API lists), and three files that customer 4 sent to merchant 3.
\<close>

definition demo_users :: "user list" where
  "demo_users =
     [\<lparr>u_id = 1, username = ''admin'', u_role = Admin, u_status = Active, disable_reason = None\<rparr>,
      \<lparr>u_id = 2, username = ''subadmin'', u_role = Sub_admin, u_status = Active, disable_reason = None\<rparr>,
      \<lparr>u_id = 3, username = ''merchant1'', u_role = Merchant, u_status = Active, disable_reason = None\<rparr>,
      \<lparr>u_id = 4, username = ''customer1'', u_role = Customer, u_status = Active, disable_reason = None\<rparr>]"

definition demo_file :: "int \<Rightarrow> string \<Rightarrow> string \<Rightarrow> int option \<Rightarrow> file_upload" where
  "demo_file i name st n =
     \<lparr>fu_id = i, fu_user_id = 4, fu_merchant_id = 3, original_name = name,
      file_name = ''1759392000000_1_'' @ name, file_path = ''uploads/1759392000000_1_'' @ name,
      file_size = 2048, file_type = ''image'', mime_type = ''image/jpeg'', remarks = None,
      upload_time = ''2025-10-02T08:00:00.000Z'', fu_status = st,
      process_status = ''received'', edit_count = n, last_edit_time = None\<rparr>"

definition demo_db :: database where
  "demo_db =
     \<lparr>users = demo_users,
      file_uploads =
        [demo_file 7 ''a.jpg'' ''active'' (Some 9),
         demo_file 8 ''b.jpg'' ''active'' (Some 10),
         demo_file 9 ''c.jpg'' ''deleted'' None],
      download_status = [],
      operation_logs = []\<rparr>"

definition demo_edit :: "string \<Rightarrow> edit_request" where
  "demo_edit fileId =
     \<lparr>er_user = 4, er_file = fileId, er_remarks = Some ''glossy'',
      er_time = ''2025-10-03T09:00:00.000Z''\<rparr>"

definition demo_upload :: "string \<Rightarrow> string \<Rightarrow> nat \<Rightarrow> upload_file" where
  "demo_upload name mime n =
     \<lparr>uf_originalname = name, uf_mimetype = mime, uf_size = n,
      uf_filename = ''1759400000000_2_'' @ name, uf_path = ''uploads/1759400000000_2_'' @ name\<rparr>"

definition demo_batch :: upload_request where
  "demo_batch =
     \<lparr>up_merchantId = Some ''3'', up_remarks = Some ''rush'',
      up_files = [demo_upload ''x.png'' ''image/png'' 1000,
                  demo_upload ''y.zip'' ''application/zip'' 52428800]\<rparr>"

text \<open>A clock of 3 October 2025, and a request for the second page of two rows.\<close>

definition demo_clock :: clock where
  "demo_clock =
     \<lparr>today_start = ''2025-10-03T00:00:00.000Z'',
      week_ago = ''2025-09-26T09:00:00.000Z'',
      month_ago = ''2025-09-03T09:00:00.000Z'',
      day_begin = (\<lambda>d. if length d = 10 then Some (d @ ''T00:00:00.000Z'') else None),
      day_end = (\<lambda>d. if length d = 10 then Some (d @ ''T23:59:59.999Z'') else None)\<rparr>"

definition demo_list :: list_request where
  "demo_list =
     \<lparr>lq_page = Some ''2'', lq_limit = Some ''2'', lq_status = Some ''received'',
      lq_timeFilter = Some ''custom'', lq_startDate = Some ''2025-10-01'',
      lq_endDate = Some ''2025-10-02''\<rparr>"

text \<open>
  A second customer, one file of hers with the same merchant, and two ledger rows for
  file 7.
\<close>

definition demo_shop :: database where
  "demo_shop =
     demo_db
       \<lparr>users := demo_users @
          [\<lparr>u_id = 5, username = ''customer2'', u_role = Customer, u_status = Active,
            disable_reason = None\<rparr>],
        file_uploads := file_uploads demo_db @
          [(demo_file 10 ''d.jpg'' ''active'' None)\<lparr>fu_user_id := 5\<rparr>],
        download_status :=
          [\<lparr>dl_file_id = 7, dl_merchant_id = 3, dl_type = Single, dl_status = Failed,
            dl_file_path = None, dl_has_error = True\<rparr>,
           \<lparr>dl_file_id = 7, dl_merchant_id = 3, dl_type = Single, dl_status = Success,
            dl_file_path = Some ''a.jpg'', dl_has_error = False\<rparr>]\<rparr>"

text \<open>A disk on which the file of \<open>b.jpg\<close> is missing, and a merchant's token.\<close>

definition demo_disk :: "string \<Rightarrow> bool" where
  "demo_disk n = (n \<noteq> ''1759392000000_1_b.jpg'')"

definition demo_merchant :: "principal option" where
  "demo_merchant = Some \<lparr>p_id = 3, p_role = Merchant\<rparr>"

definition demo_transfer :: transfer where
  "demo_transfer = \<lparr>archive_result = Archive_end, file_sent = True\<rparr>"

section \<open>Properties of the lifecycle\<close>

text \<open>The handler without interleaving, written out.\<close>

lemma edit_remarks_unfold:
  "edit_remarks coerce db uid fileId new_remarks updateTime =
     (if 500 < text_length (case new_remarks of None \<Rightarrow> [] | Some r \<Rightarrow> r) then (Inl (Status 400), db)
      else case get_owned_file coerce db fileId uid of
        None \<Rightarrow> (Inl (Status 404), db)
      | Some file \<Rightarrow>
          if fu_status file = ''deleted'' then (Inl (Status 400), db)
          else if 10 \<le> currentEditCount file then (Inl (Status 400), db)
          else
            (Inr \<lparr>editCount = currentEditCount file + 1,
                  remainingEdits = 10 - (currentEditCount file + 1)\<rparr>,
             logOperation uid Op_edit_remarks
               (db\<lparr>file_uploads :=
                    update_remarks coerce fileId uid new_remarks updateTime (file_uploads db)\<rparr>)))"
  by (simp add: edit_remarks_def edit_read_def edit_write_def split: option.splits)

lemma text_length_le: "text_length s \<le> length s"
  by (simp add: text_length_def)

text \<open>
  Requests one after another are whole handlers in a row: with no request waiting, the
  two steps of a request amount to \<open>edit_remarks\<close>, and again no request waits.
\<close>

lemma run_events_whole_request:
  assumes "waiting 0 = None"
  shows "run_events coerce db waiting (Begin 0 q # Finish 0 # es) =
         run_events coerce
           (snd (edit_remarks coerce db (er_user q) (er_file q) (er_remarks q) (er_time q)))
           waiting es"
proof (cases "edit_read coerce db (er_user q) (er_file q) (er_remarks q)")
  case (Inl e)
  then show ?thesis using assms by (simp add: edit_remarks_def)
next
  case (Inr f)
  have "(waiting(0 \<mapsto> (q, f)))(0 := None) = waiting"
    using assms by (simp add: fun_upd_idem)
  then show ?thesis using Inr by (simp add: edit_remarks_def)
qed

lemma run_edits_Nil [simp]: "run_edits coerce db [] = db"
  by (simp add: run_edits_def one_by_one_def)

lemma run_edits_Cons [simp]:
  "run_edits coerce db (r # rs) =
   run_edits coerce (snd (edit_remarks coerce db (er_user r) (er_file r) (er_remarks r) (er_time r))) rs"
  using run_events_whole_request [of Map.empty coerce db r "one_by_one rs"]
  by (simp add: run_edits_def one_by_one_def)

lemma update_remarks_ids:
  "map fu_id (update_remarks coerce fileId uid r t rows) = map fu_id rows"
  by (induction rows) (simp_all add: update_remarks_def)

lemma keyed_rows_eq:
  assumes "distinct (map fu_id rows)" "f \<in> set rows" "g \<in> set rows" "fu_id f = fu_id g"
  shows "f = g"
  using assms by (meson distinct_map inj_on_eq_iff)

lemma get_owned_file_Some:
  assumes "get_owned_file coerce db fileId uid = Some file"
  shows "file \<in> set (file_uploads db) \<and> owned_row coerce fileId uid file"
  using assms unfolding get_owned_file_def
  by (auto simp: find_Some_iff)

lemma owned_row_is_found:
  assumes "files_keyed db" "get_owned_file coerce db fileId uid = Some file"
    "g \<in> set (file_uploads db)" "owned_row coerce fileId uid g"
  shows "g = file"
proof -
  have "file \<in> set (file_uploads db)" "owned_row coerce fileId uid file"
    using get_owned_file_Some [OF assms(2)] by simp_all
  then have "fu_id g = fu_id file"
    using assms(4) by (simp add: owned_row_def)
  then show ?thesis
    using keyed_rows_eq assms(1,3) \<open>file \<in> set (file_uploads db)\<close>
    unfolding files_keyed_def by blast
qed

lemma update_remarks_keyed:
  assumes "files_keyed db" "get_owned_file coerce db fileId uid = Some file"
  shows "update_remarks coerce fileId uid r t (file_uploads db) =
         map (\<lambda>g. if fu_id g = fu_id file
                   then file\<lparr>remarks := r, edit_count := Some (currentEditCount file + 1),
                             last_edit_time := Some t\<rparr>
                   else g) (file_uploads db)"
  unfolding update_remarks_def
proof (rule map_cong [OF refl])
  fix g assume g: "g \<in> set (file_uploads db)"
  have fl: "file \<in> set (file_uploads db)" "owned_row coerce fileId uid file"
    using get_owned_file_Some [OF assms(2)] by simp_all
  show "(if owned_row coerce fileId uid g
         then g\<lparr>remarks := r, edit_count := Some (currentEditCount g + 1), last_edit_time := Some t\<rparr>
         else g) =
        (if fu_id g = fu_id file
         then file\<lparr>remarks := r, edit_count := Some (currentEditCount file + 1), last_edit_time := Some t\<rparr>
         else g)"
  proof (cases "owned_row coerce fileId uid g")
    case True
    then have "g = file" using owned_row_is_found [OF assms g] by simp
    then show ?thesis using True by simp
  next
    case False
    have "fu_id g \<noteq> fu_id file"
    proof
      assume "fu_id g = fu_id file"
      then have "g = file"
        using keyed_rows_eq assms(1) g fl(1) unfolding files_keyed_def by blast
      then show False using False fl(2) by simp
    qed
    then show ?thesis using False by simp
  qed
qed

lemma edit_remarks_keyed:
  "files_keyed db \<Longrightarrow> files_keyed (snd (edit_remarks coerce db uid fileId r t))"
  by (simp add: edit_remarks_unfold files_keyed_def logOperation_def update_remarks_ids
      split: option.splits)

lemma edit_remarks_capped:
  assumes "files_keyed db" "edits_capped db"
  shows "edits_capped (snd (edit_remarks coerce db uid fileId r t))"
proof (cases "edit_remarks coerce db uid fileId r t")
  case (Pair res db')
  show ?thesis
  proof (cases res)
    case (Inl e)
    then have "db' = db"
      using Pair by (auto simp: edit_remarks_unfold split: option.splits if_splits)
    then show ?thesis using Pair assms(2) by simp
  next
    case (Inr reply)
    then obtain f0 where fl: "get_owned_file coerce db fileId uid = Some f0"
      and low: "currentEditCount f0 < 10"
      and db': "file_uploads db' = update_remarks coerce fileId uid r t (file_uploads db)"
      using Pair by (auto simp: edit_remarks_unfold logOperation_def split: option.splits if_splits)
    have "list_all (\<lambda>f. currentEditCount f \<le> 10)
            (update_remarks coerce fileId uid r t (file_uploads db))"
      unfolding update_remarks_keyed [OF assms(1) fl] list_all_iff
    proof
      fix x assume "x \<in> set (map (\<lambda>g. if fu_id g = fu_id f0
                   then f0\<lparr>remarks := r, edit_count := Some (currentEditCount f0 + 1),
                             last_edit_time := Some t\<rparr>
                   else g) (file_uploads db))"
      then obtain g where g: "g \<in> set (file_uploads db)"
        and x: "x = (if fu_id g = fu_id f0
                   then f0\<lparr>remarks := r, edit_count := Some (currentEditCount f0 + 1),
                             last_edit_time := Some t\<rparr>
                   else g)" by auto
      have "currentEditCount g \<le> 10"
        using assms(2) g by (simp add: edits_capped_def list_all_iff)
      then show "currentEditCount x \<le> 10"
        using x low by (simp add: currentEditCount_def)
    qed
    then show ?thesis using Pair db' by (simp add: edits_capped_def)
  qed
qed

lemma run_edits_invariant:
  "files_keyed db \<Longrightarrow> edits_capped db \<Longrightarrow>
   files_keyed (run_edits coerce db reqs) \<and> edits_capped (run_edits coerce db reqs)"
proof (induction reqs arbitrary: db)
  case Nil
  then show ?case by simp
next
  case (Cons q reqs)
  then show ?case
    by (simp add: edit_remarks_keyed edit_remarks_capped)
qed

text \<open>
  Claim C1, where it fails as stated. File 7 has edit count 9. Two requests of its owner
  are in flight together: both read the row and pass the check at 9 before either
  writes; then both UPDATEs add one, and the count is 11.
\<close>

theorem overlapping_edits_exceed_cap:
  "files_keyed demo_db \<and> edits_capped demo_db \<and>
   map edit_count (file_uploads (run_events sqlite_int_of_text demo_db Map.empty
      [Begin 0 (demo_edit ''7''), Begin 1 (demo_edit ''7''), Finish 0, Finish 1])) =
     [Some 11, Some 10, None] \<and>
   \<not> edits_capped (run_events sqlite_int_of_text demo_db Map.empty
      [Begin 0 (demo_edit ''7''), Begin 1 (demo_edit ''7''), Finish 0, Finish 1])"
  by code_simp

text \<open>
  Claim C1 as amended. When the remark edits are handled one after another, each
  finished before the next begins, then however many are requested, by whomever, no
  file's edit count exceeds 10. A request handled so for a file whose edit count has
  reached 10, or whose status is \<open>deleted\<close>, is answered with status 400 and leaves the
  whole database as it was. An accepted request handled so sets the remarks of the file
  to the text sent, raises its edit count by exactly one and stamps the time of the
  request; every other row, and every other column of the file, stays as it was.
\<close>

theorem remarks_edit_count_capped:
  assumes keyed: "files_keyed db" and capped: "edits_capped db"
  shows "edits_capped (run_edits coerce db reqs) \<and>
    (\<forall>file. get_owned_file coerce db fileId uid = Some file \<and>
         (10 \<le> currentEditCount file \<or> fu_status file = ''deleted'') \<longrightarrow>
       edit_remarks coerce db uid fileId r t = (Inl (Status 400), db)) \<and>
    (\<forall>reply db'. edit_remarks coerce db uid fileId r t = (Inr reply, db') \<longrightarrow>
       (\<exists>file. get_owned_file coerce db fileId uid = Some file \<and>
          fu_status file \<noteq> ''deleted'' \<and> currentEditCount file < 10 \<and>
          editCount reply = currentEditCount file + 1 \<and>
          file_uploads db' =
            map (\<lambda>g. if fu_id g = fu_id file
                      then file\<lparr>remarks := r,
                                edit_count := Some (currentEditCount file + 1),
                                last_edit_time := Some t\<rparr>
                      else g) (file_uploads db)))"
proof (intro conjI allI impI)
  show "edits_capped (run_edits coerce db reqs)"
    using run_edits_invariant [OF keyed capped] by simp
next
  fix f1
  assume "get_owned_file coerce db fileId uid = Some f1 \<and>
    (10 \<le> currentEditCount f1 \<or> fu_status f1 = ''deleted'')"
  then show "edit_remarks coerce db uid fileId r t = (Inl (Status 400), db)"
    by (auto simp: edit_remarks_unfold)
next
  fix reply db'
  assume acc: "edit_remarks coerce db uid fileId r t = (Inr reply, db')"
  then obtain f0 where found: "get_owned_file coerce db fileId uid = Some f0"
    by (auto simp: edit_remarks_unfold split: option.splits if_splits)
  from acc found have facts: "fu_status f0 \<noteq> ''deleted''" "currentEditCount f0 < 10"
      "editCount reply = currentEditCount f0 + 1"
      "file_uploads db' = update_remarks coerce fileId uid r t (file_uploads db)"
    by (auto simp: edit_remarks_unfold logOperation_def split: if_splits)
  show "\<exists>file. get_owned_file coerce db fileId uid = Some file \<and>
          fu_status file \<noteq> ''deleted'' \<and> currentEditCount file < 10 \<and>
          editCount reply = currentEditCount file + 1 \<and>
          file_uploads db' =
            map (\<lambda>g. if fu_id g = fu_id file
                      then file\<lparr>remarks := r,
                                edit_count := Some (currentEditCount file + 1),
                                last_edit_time := Some t\<rparr>
                      else g) (file_uploads db)"
    using found facts update_remarks_keyed [OF keyed found, of r t] by simp
qed

lemma demo_file_sel:
  "fu_id (demo_file i name st n) = i"
  "fu_user_id (demo_file i name st n) = 4"
  "fu_merchant_id (demo_file i name st n) = 3"
  "fu_status (demo_file i name st n) = st"
  "edit_count (demo_file i name st n) = n"
  by (simp_all add: demo_file_def)

lemma coerce_digit:
  "sqlite_int_of_text ''7'' = Some 7" "sqlite_int_of_text ''8'' = Some 8"
  "sqlite_int_of_text ''9'' = Some 9" "sqlite_int_of_text ''01'' = Some 1"
  by (simp_all add: sqlite_int_of_text_def sql_trim_def sql_space_def digit_value_def)

lemma demo_files:
  "file_uploads demo_db =
     [demo_file 7 ''a.jpg'' ''active'' (Some 9), demo_file 8 ''b.jpg'' ''active'' (Some 10),
      demo_file 9 ''c.jpg'' ''deleted'' None]"
  by (simp add: demo_db_def)

theorem remarks_edit_count_capped_witness:
  "files_keyed demo_db \<and> edits_capped demo_db \<and>
   edits_capped (run_edits sqlite_int_of_text demo_db
      [demo_edit ''7'', demo_edit ''7'', demo_edit ''8'', demo_edit ''9'']) \<and>
   get_owned_file sqlite_int_of_text demo_db ''8'' 4 = Some (demo_file 8 ''b.jpg'' ''active'' (Some 10)) \<and>
   edit_remarks sqlite_int_of_text demo_db 4 ''8'' (Some ''glossy'') ''2025-10-03T09:00:00.000Z''
     = (Inl (Status 400), demo_db) \<and>
   fst (edit_remarks sqlite_int_of_text demo_db 4 ''7'' (Some ''glossy'') ''2025-10-03T09:00:00.000Z'')
     = Inr \<lparr>editCount = 10, remainingEdits = 0\<rparr> \<and>
   file_uploads (snd (edit_remarks sqlite_int_of_text demo_db 4 ''7'' (Some ''glossy'')
       ''2025-10-03T09:00:00.000Z'')) =
     [(demo_file 7 ''a.jpg'' ''active'' (Some 9))
        \<lparr>remarks := Some ''glossy'', edit_count := Some 10,
         last_edit_time := Some ''2025-10-03T09:00:00.000Z''\<rparr>,
      demo_file 8 ''b.jpg'' ''active'' (Some 10),
      demo_file 9 ''c.jpg'' ''deleted'' None]"
proof -
  have k: "files_keyed demo_db"
    by (simp add: files_keyed_def demo_files demo_file_sel)
  have c: "edits_capped demo_db"
    by (simp add: edits_capped_def currentEditCount_def demo_files demo_file_sel)
  have f8: "get_owned_file sqlite_int_of_text demo_db ''8'' 4 =
      Some (demo_file 8 ''b.jpg'' ''active'' (Some 10))"
    by (simp add: get_owned_file_def owned_row_def demo_files demo_file_sel coerce_digit)
  have n8: "10 \<le> currentEditCount (demo_file 8 ''b.jpg'' ''active'' (Some 10))"
    by (simp add: currentEditCount_def demo_file_sel)
  have f7: "get_owned_file sqlite_int_of_text demo_db ''7'' 4 =
      Some (demo_file 7 ''a.jpg'' ''active'' (Some 9))"
    by (simp add: get_owned_file_def owned_row_def demo_files demo_file_sel coerce_digit)
  have r7: "fst (edit_remarks sqlite_int_of_text demo_db 4 ''7'' (Some ''glossy'')
      ''2025-10-03T09:00:00.000Z'') = Inr \<lparr>editCount = 10, remainingEdits = 0\<rparr>"
    using text_length_le [of "''glossy''"]
    by (simp add: edit_remarks_unfold f7 currentEditCount_def demo_file_sel)
  have acc: "edit_remarks sqlite_int_of_text demo_db 4 ''7'' (Some ''glossy'')
      ''2025-10-03T09:00:00.000Z'' =
      (Inr \<lparr>editCount = 10, remainingEdits = 0\<rparr>,
       snd (edit_remarks sqlite_int_of_text demo_db 4 ''7'' (Some ''glossy'') ''2025-10-03T09:00:00.000Z''))"
    using r7 by (simp add: prod_eq_iff)
  note rej = remarks_edit_count_capped [OF k c, of sqlite_int_of_text
      "[demo_edit ''7'', demo_edit ''7'', demo_edit ''8'', demo_edit ''9'']"
      "''8''" 4 "Some ''glossy''" "''2025-10-03T09:00:00.000Z''"]
  note ok = remarks_edit_count_capped [OF k c, of sqlite_int_of_text "[]"
      "''7''" 4 "Some ''glossy''" "''2025-10-03T09:00:00.000Z''"]
  have 1: "edits_capped (run_edits sqlite_int_of_text demo_db
      [demo_edit ''7'', demo_edit ''7'', demo_edit ''8'', demo_edit ''9''])"
    by (rule rej [THEN conjunct1])
  have 2: "edit_remarks sqlite_int_of_text demo_db 4 ''8'' (Some ''glossy'')
      ''2025-10-03T09:00:00.000Z'' = (Inl (Status 400), demo_db)"
    using rej [THEN conjunct2, THEN conjunct1, rule_format,
        of "demo_file 8 ''b.jpg'' ''active'' (Some 10)"] f8 n8 by blast
  note ok [THEN conjunct2, THEN conjunct2, rule_format, OF acc]
  then obtain f1 where g1: "get_owned_file sqlite_int_of_text demo_db ''7'' 4 = Some f1"
    and g2: "file_uploads (snd (edit_remarks sqlite_int_of_text demo_db 4 ''7'' (Some ''glossy'')
       ''2025-10-03T09:00:00.000Z'')) =
       map (\<lambda>g. if fu_id g = fu_id f1
                      then f1\<lparr>remarks := Some ''glossy'',
                                edit_count := Some (currentEditCount f1 + 1),
                                last_edit_time := Some ''2025-10-03T09:00:00.000Z''\<rparr>
                      else g) (file_uploads demo_db)"
    by blast
  have e: "f1 = demo_file 7 ''a.jpg'' ''active'' (Some 9)"
    using f7 g1 by simp
  have 3: "file_uploads (snd (edit_remarks sqlite_int_of_text demo_db 4 ''7'' (Some ''glossy'')
       ''2025-10-03T09:00:00.000Z'')) =
     [(demo_file 7 ''a.jpg'' ''active'' (Some 9))
        \<lparr>remarks := Some ''glossy'', edit_count := Some 10,
         last_edit_time := Some ''2025-10-03T09:00:00.000Z''\<rparr>,
      demo_file 8 ''b.jpg'' ''active'' (Some 10),
      demo_file 9 ''c.jpg'' ''deleted'' None]"
    unfolding g2 e by (simp add: demo_files demo_file_sel currentEditCount_def)
  from k c 1 f8 2 r7 3 show ?thesis by (intro conjI)
qed

lemma owned_row_status:
  "owned_row coerce fileId uid (f\<lparr>fu_status := st\<rparr>) = owned_row coerce fileId uid f"
  by (simp add: owned_row_def)

lemma find_update_status:
  "find (owned_row coerce fileId uid) (update_status coerce fileId uid st rows) =
   map_option (\<lambda>f. f\<lparr>fu_status := st\<rparr>) (find (owned_row coerce fileId uid) rows)"
  by (induction rows) (simp_all add: update_status_def owned_row_status)

lemma update_status_twice:
  "update_status coerce fileId uid st' (update_status coerce fileId uid st rows) =
   update_status coerce fileId uid st' rows"
  by (induction rows) (simp_all add: update_status_def owned_row_status)

lemma update_status_same:
  assumes "files_keyed db" "get_owned_file coerce db fileId uid = Some f"
  shows "update_status coerce fileId uid (fu_status f) (file_uploads db) = file_uploads db"
proof -
  have "map (\<lambda>g. if owned_row coerce fileId uid g then g\<lparr>fu_status := fu_status f\<rparr> else g)
          (file_uploads db) = map (\<lambda>g. g) (file_uploads db)"
  proof (rule map_cong [OF refl])
    fix g assume g: "g \<in> set (file_uploads db)"
    show "(if owned_row coerce fileId uid g then g\<lparr>fu_status := fu_status f\<rparr> else g) = g"
    proof (cases "owned_row coerce fileId uid g")
      case True
      then have "g = f" using owned_row_is_found [OF assms g] by simp
      then show ?thesis by simp
    next
      case False
      then show ?thesis by simp
    qed
  qed
  then show ?thesis by (simp add: update_status_def)
qed

text \<open>
  Claim C4. For a file the caller owns: a soft delete of a file whose status is already
  \<open>deleted\<close> is answered with status 400 and changes nothing; a restore of a file whose
  status is \<open>active\<close> is answered with status 400 and changes nothing; and on an active
  file a soft delete followed by a restore both succeed, pass through the status
  \<open>deleted\<close>, and leave the table of files exactly as it was before (status \<open>active\<close>
  again, every other column and every other row untouched).
\<close>

theorem delete_restore_guarded:
  assumes keyed: "files_keyed db"
    and found: "get_owned_file coerce db fileId uid = Some f"
  shows "(fu_status f = ''deleted'' \<longrightarrow>
            delete_upload coerce db uid fileId = (Inl (Status 400), db)) \<and>
         (fu_status f = ''active'' \<longrightarrow>
            restore_upload coerce db uid fileId = (Inl (Status 400), db)) \<and>
         (fu_status f = ''active'' \<longrightarrow>
            (\<exists>db1 db2.
               delete_upload coerce db uid fileId = (Inr (), db1) \<and>
               get_owned_file coerce db1 fileId uid = Some (f\<lparr>fu_status := ''deleted''\<rparr>) \<and>
               restore_upload coerce db1 uid fileId = (Inr (), db2) \<and>
               file_uploads db2 = file_uploads db \<and>
               users db2 = users db \<and>
               download_status db2 = download_status db))"
proof (intro conjI impI)
  assume "fu_status f = ''deleted''"
  then show "delete_upload coerce db uid fileId = (Inl (Status 400), db)"
    using found by (simp add: delete_upload_def)
next
  assume "fu_status f = ''active''"
  then show "restore_upload coerce db uid fileId = (Inl (Status 400), db)"
    using found by (simp add: restore_upload_def)
next
  assume active: "fu_status f = ''active''"
  define db1 where "db1 = logOperation uid Op_delete_file
      (db\<lparr>file_uploads := update_status coerce fileId uid ''deleted'' (file_uploads db)\<rparr>)"
  define db2 where "db2 = logOperation uid Op_restore_file
      (db1\<lparr>file_uploads := update_status coerce fileId uid ''active'' (file_uploads db1)\<rparr>)"
  have del: "delete_upload coerce db uid fileId = (Inr (), db1)"
    using found active by (simp add: delete_upload_def db1_def)
  have rows1: "file_uploads db1 = update_status coerce fileId uid ''deleted'' (file_uploads db)"
    by (simp add: db1_def logOperation_def)
  have found1: "get_owned_file coerce db1 fileId uid = Some (f\<lparr>fu_status := ''deleted''\<rparr>)"
    using found by (simp add: get_owned_file_def rows1 find_update_status)
  have res: "restore_upload coerce db1 uid fileId = (Inr (), db2)"
    using found1 by (simp add: restore_upload_def db2_def)
  have "file_uploads db2 = update_status coerce fileId uid (fu_status f) (file_uploads db)"
    by (simp add: db2_def logOperation_def rows1 update_status_twice active)
  then have rows2: "file_uploads db2 = file_uploads db"
    using update_status_same [OF keyed found] by simp
  have rest: "users db2 = users db" "download_status db2 = download_status db"
    by (simp_all add: db2_def db1_def logOperation_def)
  show "\<exists>db1 db2.
          delete_upload coerce db uid fileId = (Inr (), db1) \<and>
          get_owned_file coerce db1 fileId uid = Some (f\<lparr>fu_status := ''deleted''\<rparr>) \<and>
          restore_upload coerce db1 uid fileId = (Inr (), db2) \<and>
          file_uploads db2 = file_uploads db \<and>
          users db2 = users db \<and>
          download_status db2 = download_status db"
    using del found1 res rows2 rest by blast
qed

theorem delete_restore_guarded_witness:
  "files_keyed demo_db \<and>
   get_owned_file sqlite_int_of_text demo_db ''7'' 4 = Some (demo_file 7 ''a.jpg'' ''active'' (Some 9)) \<and>
   get_owned_file sqlite_int_of_text demo_db ''9'' 4 = Some (demo_file 9 ''c.jpg'' ''deleted'' None) \<and>
   delete_upload sqlite_int_of_text demo_db 4 ''9'' = (Inl (Status 400), demo_db) \<and>
   restore_upload sqlite_int_of_text demo_db 4 ''7'' = (Inl (Status 400), demo_db) \<and>
   (\<exists>db1 db2.
      delete_upload sqlite_int_of_text demo_db 4 ''7'' = (Inr (), db1) \<and>
      get_owned_file sqlite_int_of_text db1 ''7'' 4 =
        Some ((demo_file 7 ''a.jpg'' ''active'' (Some 9))\<lparr>fu_status := ''deleted''\<rparr>) \<and>
      restore_upload sqlite_int_of_text db1 4 ''7'' = (Inr (), db2) \<and>
      file_uploads db2 = file_uploads demo_db \<and>
      users db2 = users demo_db \<and>
      download_status db2 = download_status demo_db)"
proof -
  have k: "files_keyed demo_db"
    by (simp add: files_keyed_def demo_files demo_file_sel)
  have f7: "get_owned_file sqlite_int_of_text demo_db ''7'' 4 =
      Some (demo_file 7 ''a.jpg'' ''active'' (Some 9))"
    by (simp add: get_owned_file_def owned_row_def demo_files demo_file_sel coerce_digit)
  have f9: "get_owned_file sqlite_int_of_text demo_db ''9'' 4 =
      Some (demo_file 9 ''c.jpg'' ''deleted'' None)"
    by (simp add: get_owned_file_def owned_row_def demo_files demo_file_sel coerce_digit)
  have s7: "fu_status (demo_file 7 ''a.jpg'' ''active'' (Some 9)) = ''active''"
    and s9: "fu_status (demo_file 9 ''c.jpg'' ''deleted'' None) = ''deleted''"
    by (simp_all add: demo_file_sel)
  note live = delete_restore_guarded [OF k f7]
  note gone = delete_restore_guarded [OF k f9]
  have 1: "delete_upload sqlite_int_of_text demo_db 4 ''9'' = (Inl (Status 400), demo_db)"
    using gone [THEN conjunct1] s9 by (rule mp)
  have 2: "restore_upload sqlite_int_of_text demo_db 4 ''7'' = (Inl (Status 400), demo_db)"
    using live [THEN conjunct2, THEN conjunct1] s7 by (rule mp)
  note 3 = live [THEN conjunct2, THEN conjunct2, THEN mp, OF s7]
  from k f7 f9 1 2 3 show ?thesis by (intro conjI)
qed

section \<open>Properties of the account status and the duplicate check\<close>

lemma literal_one_guarded:
  assumes "sr_id r = ''1''"
  shows "\<exists>e. set_user_status coerce db p r = (Inl e, db)"
  using assms by (simp add: set_user_status_def)

lemma disable_stores_reason:
  assumes "set_user_status coerce db p r = (Inr (), db')"
    and "sr_status r = Some ''disabled''"
  shows "\<exists>t. sr_reason r = Some t \<and> t \<noteq> [] \<and>
    users db' = map (\<lambda>u. if user_row coerce (sr_id r) u
        then u\<lparr>u_status := Disabled, disable_reason := Some t\<rparr> else u) (users db)"
  using assms
  by (auto simp: set_user_status_def no_reason_def update_user_status_def logOperation_def
      split: if_splits option.splits)

lemma enable_clears_reason:
  assumes "set_user_status coerce db p r = (Inr (), db')"
    and "sr_status r \<noteq> Some ''disabled''"
  shows "sr_status r = Some ''active'' \<and>
    users db' = map (\<lambda>u. if user_row coerce (sr_id r) u
        then u\<lparr>u_status := Active, disable_reason := None\<rparr> else u) (users db)"
  using assms
  by (auto simp: set_user_status_def status_request_valid_def update_user_status_def
      logOperation_def split: if_splits option.splits)

lemma demo_users_db: "users demo_db = demo_users"
  by (simp add: demo_db_def)

text \<open>
  Claim C8, at the input where the code departs from it. A sub-admin sends the status
  change with the route parameter \<open>01\<close>, status \<open>disabled\<close> and a reason. The guard
  compares the text of the parameter with \<open>1\<close> and lets \<open>01\<close> pass; the store reads \<open>01\<close>
  as the integer 1, so the request succeeds and the bootstrap admin, user 1, is disabled.
\<close>

theorem bootstrap_admin_disabled_by_padded_id:
  "fst (set_user_status sqlite_int_of_text demo_db \<lparr>p_id = 2, p_role = Sub_admin\<rparr>
          \<lparr>sr_id = ''01'', sr_status = Some ''disabled'', sr_reason = Some ''abuse''\<rparr>) = Inr () \<and>
   find (\<lambda>u. u_id u = 1)
     (users (snd (set_user_status sqlite_int_of_text demo_db \<lparr>p_id = 2, p_role = Sub_admin\<rparr>
          \<lparr>sr_id = ''01'', sr_status = Some ''disabled'', sr_reason = Some ''abuse''\<rparr>))) =
     Some \<lparr>u_id = 1, username = ''admin'', u_role = Admin, u_status = Disabled,
           disable_reason = Some ''abuse''\<rparr>"
proof -
  have row: "\<And>u. user_row sqlite_int_of_text ''01'' u = (u_id u = 1)"
    by (auto simp: user_row_def coerce_digit)
  have run: "set_user_status sqlite_int_of_text demo_db \<lparr>p_id = 2, p_role = Sub_admin\<rparr>
          \<lparr>sr_id = ''01'', sr_status = Some ''disabled'', sr_reason = Some ''abuse''\<rparr> =
     (Inr (), logOperation 2 Op_disable_user
        (demo_db\<lparr>users := update_user_status sqlite_int_of_text
           \<lparr>sr_id = ''01'', sr_status = Some ''disabled'', sr_reason = Some ''abuse''\<rparr>
           (users demo_db)\<rparr>))"
    by (simp add: set_user_status_def requireAdmin_def status_request_valid_def no_reason_def
        row demo_users_db demo_users_def)
  show ?thesis
    unfolding run
    by (simp add: logOperation_def update_user_status_def row demo_users_db demo_users_def)
qed

text \<open>
  Claim C10. A caller whose role is not \<open>customer\<close> gets status 403 and the handler has
  issued no statement. For every caller the database after the call is the database
  before it, and every statement issued is a SELECT.
\<close>

theorem duplicate_check_customers_only:
  "(p_role p \<noteq> Customer \<longrightarrow>
      check_duplicate_files coerce db p req =
        \<lparr>cd_answer = Inl (Status 403), cd_statements = [], cd_database = db\<rparr>) \<and>
   cd_database (check_duplicate_files coerce db p req) = db \<and>
   list_all (\<lambda>s. s = Select_stmt) (cd_statements (check_duplicate_files coerce db p req))"
proof (intro conjI impI)
  assume "p_role p \<noteq> Customer"
  then show "check_duplicate_files coerce db p req =
        \<lparr>cd_answer = Inl (Status 403), cd_statements = [], cd_database = db\<rparr>"
    by (simp add: check_duplicate_files_def)
next
  show "cd_database (check_duplicate_files coerce db p req) = db"
    by (simp add: check_duplicate_files_def split: option.splits)
next
  show "list_all (\<lambda>s. s = Select_stmt) (cd_statements (check_duplicate_files coerce db p req))"
    by (simp add: check_duplicate_files_def split: option.splits)
qed

theorem duplicate_check_customers_only_witness:
  "check_duplicate_files sqlite_int_of_text demo_db \<lparr>p_id = 3, p_role = Merchant\<rparr>
       \<lparr>dr_merchantId = Some (Id_number 3), dr_fileNames = Some [''a.jpg'']\<rparr> =
     \<lparr>cd_answer = Inl (Status 403), cd_statements = [], cd_database = demo_db\<rparr> \<and>
   check_duplicate_files sqlite_int_of_text demo_db \<lparr>p_id = 1, p_role = Admin\<rparr>
       \<lparr>dr_merchantId = Some (Id_number 3), dr_fileNames = Some [''a.jpg'']\<rparr> =
     \<lparr>cd_answer = Inl (Status 403), cd_statements = [], cd_database = demo_db\<rparr> \<and>
   check_duplicate_files sqlite_int_of_text demo_db \<lparr>p_id = 2, p_role = Sub_admin\<rparr>
       \<lparr>dr_merchantId = Some (Id_number 3), dr_fileNames = Some [''a.jpg'']\<rparr> =
     \<lparr>cd_answer = Inl (Status 403), cd_statements = [], cd_database = demo_db\<rparr> \<and>
   check_duplicate_files sqlite_int_of_text demo_db \<lparr>p_id = 4, p_role = Customer\<rparr>
       \<lparr>dr_merchantId = Some (Id_number 3), dr_fileNames = Some [''a.jpg'', ''z.jpg'']\<rparr> =
     \<lparr>cd_answer = Inr [''a.jpg''], cd_statements = [Select_stmt], cd_database = demo_db\<rparr>"
proof -
  have roles: "p_role \<lparr>p_id = 3, p_role = Merchant\<rparr> \<noteq> Customer"
    "p_role \<lparr>p_id = 1, p_role = Admin\<rparr> \<noteq> Customer"
    "p_role \<lparr>p_id = 2, p_role = Sub_admin\<rparr> \<noteq> Customer"
    by simp_all
  note m = duplicate_check_customers_only [THEN conjunct1, THEN mp, OF roles(1)]
  note a = duplicate_check_customers_only [THEN conjunct1, THEN mp, OF roles(2)]
  note s = duplicate_check_customers_only [THEN conjunct1, THEN mp, OF roles(3)]
  have c: "check_duplicate_files sqlite_int_of_text demo_db \<lparr>p_id = 4, p_role = Customer\<rparr>
       \<lparr>dr_merchantId = Some (Id_number 3), dr_fileNames = Some [''a.jpg'', ''z.jpg'']\<rparr> =
     \<lparr>cd_answer = Inr [''a.jpg''], cd_statements = [Select_stmt], cd_database = demo_db\<rparr>"
    by (simp add: check_duplicate_files_def id_missing_def id_matches_def demo_files demo_file_def)
  from m a s c show ?thesis by (intro conjI)
qed

section \<open>Properties of the upload\<close>

lemma multer_array_None:
  "multer_array n fs = None \<Longrightarrow>
   (fs = [] \<or> n + length fs \<le> files_limit) \<and> list_all fileFilter fs \<and>
   list_all (\<lambda>f. uf_size f \<le> fileSize_limit) fs"
proof (induction fs arbitrary: n)
  case Nil
  then show ?case by simp
next
  case (Cons f fs)
  from Cons.prems have step: "n < files_limit" "fileFilter f" "uf_size f \<le> fileSize_limit"
      "multer_array (Suc n) fs = None"
    by (auto split: if_splits)
  from Cons.IH [OF step(4)] step(1,2,3) show ?case by auto
qed

lemma multer_array_snoc:
  "multer_array n fs = None \<Longrightarrow> n + length fs < files_limit \<Longrightarrow> fileFilter a \<Longrightarrow>
   uf_size a \<le> fileSize_limit \<Longrightarrow> multer_array n (fs @ [a]) = None"
proof (induction fs arbitrary: n)
  case Nil
  then show ?case by simp
next
  case (Cons f fs)
  from Cons.prems(1) have step: "n < files_limit" "fileFilter f" "uf_size f \<le> fileSize_limit"
      "multer_array (Suc n) fs = None"
    by (auto split: if_splits)
  have "multer_array (Suc n) (fs @ [a]) = None"
    using Cons.IH [OF step(4)] Cons.prems(2,3,4) by simp
  then show ?case using step by simp
qed

lemma image_fold:
  "fold (\<lambda>f (totalImageSize, imageCount).
             if isImage f then (totalImageSize + uf_size f, imageCount + 1)
             else (totalImageSize, imageCount)) fs (t, c) =
   (t + sum_list (map uf_size (filter isImage fs)), c + length (filter isImage fs))"
  by (induction fs arbitrary: t c) simp_all

lemma image_totals_sum:
  "image_totals fs = (sum_list (map uf_size (filter isImage fs)), length (filter isImage fs))"
  by (simp add: image_totals_def image_fold)

lemma upload_rejected_unchanged:
  "upload coerce db uid req t = (Inl e, db') \<Longrightarrow> db' = db"
  by (auto simp: upload_def Let_def split: option.splits if_splits)

lemma upload_accepted_iff:
  "upload_accepted coerce db uid req t \<longleftrightarrow>
     multer_array 0 (up_files req) = None \<and> \<not> blank (up_merchantId req) \<and> up_files req \<noteq> [] \<and>
     (\<exists>m. find (\<lambda>u. user_row coerce (the (up_merchantId req)) u \<and> u_role u = Merchant) (users db)
            = Some m \<and> u_status m \<noteq> Disabled) \<and>
     length (filter isImage (up_files req)) \<le> 20 \<and>
     sum_list (map uf_size (filter isImage (up_files req))) \<le> 50 * 1024 * 1024"
  by (auto simp: upload_accepted_def upload_def Let_def image_totals_sum
      split: option.splits if_splits)

text \<open>
  Claim C7. An accepted upload has a selected merchant that exists in the users table
  with role \<open>merchant\<close> and status \<open>active\<close>, between 1 and 20 files, every file passing
  the type filter (MIME type or extension in the allowed sets), and at most 50MB of
  image files in total. A rejected upload leaves the whole database as it was, so no row
  is written. Files that are not images do not count towards the total: an accepted batch
  of fewer than 20 files stays accepted when any further non-image file that passes the
  filter and the per-file limit of the upload middleware is added.
\<close>

theorem upload_acceptance:
  "(upload coerce db uid req t = (Inr saved, db') \<longrightarrow>
      (\<exists>m mid. m \<in> set (users db) \<and> up_merchantId req = Some mid \<and>
          coerce mid = Some (u_id m) \<and> u_role m = Merchant \<and> u_status m = Active) \<and>
      1 \<le> length (up_files req) \<and> length (up_files req) \<le> 20 \<and>
      list_all fileFilter (up_files req) \<and>
      sum_list (map uf_size (filter isImage (up_files req))) \<le> 50 * 1024 * 1024) \<and>
   (upload coerce db uid req t = (Inl e, db') \<longrightarrow> db' = db) \<and>
   (upload_accepted coerce db uid req t \<and> length (up_files req) < 20 \<and>
      \<not> isImage a \<and> fileFilter a \<and> uf_size a \<le> fileSize_limit \<longrightarrow>
      upload_accepted coerce db uid (req\<lparr>up_files := up_files req @ [a]\<rparr>) t)"
proof (intro conjI impI)
  assume acc: "upload coerce db uid req t = (Inr saved, db')"
  then have "upload_accepted coerce db uid req t"
    by (simp add: upload_accepted_def)
  then obtain m where mul: "multer_array 0 (up_files req) = None"
    and sel: "\<not> blank (up_merchantId req)" and some: "up_files req \<noteq> []"
    and m: "find (\<lambda>u. user_row coerce (the (up_merchantId req)) u \<and> u_role u = Merchant) (users db)
            = Some m" "u_status m \<noteq> Disabled"
    and total: "sum_list (map uf_size (filter isImage (up_files req))) \<le> 50 * 1024 * 1024"
    unfolding upload_accepted_iff by blast
  from sel obtain mid where mid: "up_merchantId req = Some mid"
    by (cases "up_merchantId req") (simp_all add: blank_def)
  from m(1) have "m \<in> set (users db)" "user_row coerce mid m" "u_role m = Merchant"
    using mid by (auto simp: find_Some_iff)
  moreover have "u_status m = Active"
    using m(2) by (cases "u_status m") simp_all
  ultimately show "\<exists>m mid. m \<in> set (users db) \<and> up_merchantId req = Some mid \<and>
          coerce mid = Some (u_id m) \<and> u_role m = Merchant \<and> u_status m = Active"
    using mid by (auto simp: user_row_def)
  show "1 \<le> length (up_files req)"
    using some by (cases "up_files req") simp_all
  show "length (up_files req) \<le> 20"
    using multer_array_None [OF mul] by (auto simp: files_limit_def)
  show "list_all fileFilter (up_files req)"
    using multer_array_None [OF mul] by simp
  show "sum_list (map uf_size (filter isImage (up_files req))) \<le> 50 * 1024 * 1024"
    by (rule total)
next
  assume "upload coerce db uid req t = (Inl e, db')"
  then show "db' = db" by (rule upload_rejected_unchanged)
next
  assume h: "upload_accepted coerce db uid req t \<and> length (up_files req) < 20 \<and>
      \<not> isImage a \<and> fileFilter a \<and> uf_size a \<le> fileSize_limit"
  then have old: "upload_accepted coerce db uid req t" by simp
  have "multer_array 0 (up_files req @ [a]) = None"
    using h old multer_array_snoc [of 0 "up_files req" a]
    by (simp add: upload_accepted_iff files_limit_def)
  then show "upload_accepted coerce db uid (req\<lparr>up_files := up_files req @ [a]\<rparr>) t"
    using h old by (simp add: upload_accepted_iff)
qed

lemma demo_upload_sel:
  "uf_size (demo_upload name mime n) = n"
  "uf_mimetype (demo_upload name mime n) = mime"
  "uf_originalname (demo_upload name mime n) = name"
  by (simp_all add: demo_upload_def)

lemma demo_upload_kinds:
  "fileFilter (demo_upload ''x.png'' ''image/png'' n)"
  "isImage (demo_upload ''x.png'' ''image/png'' n)"
  "fileFilter (demo_upload ''y.zip'' ''application/zip'' n)"
  "\<not> isImage (demo_upload ''y.zip'' ''application/zip'' n)"
  "fileFilter (demo_upload ''z.rar'' ''application/x-rar'' n)"
  "\<not> isImage (demo_upload ''z.rar'' ''application/x-rar'' n)"
  by (simp_all add: fileFilter_def isImage_def file_ext_def demo_upload_sel extname_def
      last_component_def toLowerCase_def lower_char_def Let_def
      imageTypes_def archiveTypes_def imageExtensions_def archiveExtensions_def)

lemma demo_merchant_lookup:
  "find (\<lambda>u. user_row sqlite_int_of_text ''3'' u \<and> u_role u = Merchant) (users demo_db) =
     Some \<lparr>u_id = 3, username = ''merchant1'', u_role = Merchant, u_status = Active,
           disable_reason = None\<rparr>"
  "find (\<lambda>u. user_row sqlite_int_of_text ''4'' u \<and> u_role u = Merchant) (users demo_db) = None"
  by (simp_all add: user_row_def demo_users_db demo_users_def
      sqlite_int_of_text_def sql_trim_def sql_space_def digit_value_def)

theorem upload_acceptance_witness:
  "upload_accepted sqlite_int_of_text demo_db 4 demo_batch ''2025-10-03T10:00:00.000Z'' \<and>
   (\<exists>m mid. m \<in> set (users demo_db) \<and> up_merchantId demo_batch = Some mid \<and>
       sqlite_int_of_text mid = Some (u_id m) \<and> u_role m = Merchant \<and> u_status m = Active) \<and>
   1 \<le> length (up_files demo_batch) \<and> length (up_files demo_batch) \<le> 20 \<and>
   list_all fileFilter (up_files demo_batch) \<and>
   sum_list (map uf_size (filter isImage (up_files demo_batch))) \<le> 50 * 1024 * 1024 \<and>
   snd (upload sqlite_int_of_text demo_db 4 (demo_batch\<lparr>up_merchantId := Some ''4''\<rparr>)
         ''2025-10-03T10:00:00.000Z'') = demo_db \<and>
   upload_accepted sqlite_int_of_text demo_db 4
     (demo_batch\<lparr>up_files := up_files demo_batch @
         [demo_upload ''z.rar'' ''application/x-rar'' 52428800]\<rparr>) ''2025-10-03T10:00:00.000Z''"
proof -
  let ?t = "''2025-10-03T10:00:00.000Z''"
  let ?bad = "demo_batch\<lparr>up_merchantId := Some ''4''\<rparr>"
  let ?rar = "demo_upload ''z.rar'' ''application/x-rar'' 52428800"
  have acc: "upload_accepted sqlite_int_of_text demo_db 4 demo_batch ?t"
    unfolding upload_accepted_iff
    by (simp add: demo_batch_def demo_upload_kinds demo_upload_sel demo_merchant_lookup
        blank_def files_limit_def fileSize_limit_def)
  then obtain saved where "fst (upload sqlite_int_of_text demo_db 4 demo_batch ?t) = Inr saved"
    by (cases "fst (upload sqlite_int_of_text demo_db 4 demo_batch ?t)")
       (simp_all add: upload_accepted_def)
  then have run: "upload sqlite_int_of_text demo_db 4 demo_batch ?t =
      (Inr saved, snd (upload sqlite_int_of_text demo_db 4 demo_batch ?t))"
    by (simp add: prod_eq_iff)
  note conds = upload_acceptance [THEN conjunct1, THEN mp, OF run]
  have "\<not> upload_accepted sqlite_int_of_text demo_db 4 ?bad ?t"
    unfolding upload_accepted_iff
    by (simp add: demo_batch_def demo_merchant_lookup)
  then obtain e where "fst (upload sqlite_int_of_text demo_db 4 ?bad ?t) = Inl e"
    by (cases "fst (upload sqlite_int_of_text demo_db 4 ?bad ?t)")
       (simp_all add: upload_accepted_def)
  then have "upload sqlite_int_of_text demo_db 4 ?bad ?t =
      (Inl e, snd (upload sqlite_int_of_text demo_db 4 ?bad ?t))"
    by (simp add: prod_eq_iff)
  note rej = upload_acceptance [THEN conjunct2, THEN conjunct1, THEN mp, OF this]
  have "upload_accepted sqlite_int_of_text demo_db 4 demo_batch ?t \<and>
      length (up_files demo_batch) < 20 \<and> \<not> isImage ?rar \<and> fileFilter ?rar \<and>
      uf_size ?rar \<le> fileSize_limit"
    using acc by (simp add: demo_batch_def demo_upload_kinds demo_upload_sel fileSize_limit_def)
  note more = upload_acceptance [THEN conjunct2, THEN conjunct2, THEN mp, OF this]
  from acc conds rej more show ?thesis by (intro conjI) blast+
qed

section \<open>Properties of the lists\<close>

lemma set_insert_ordered: "set (insert_ordered precedes x ys) = insert x (set ys)"
  by (induction ys) auto

lemma set_order_by: "set (order_by precedes rows) = set rows"
  unfolding order_by_def by (induction rows) (simp_all add: set_insert_ordered)

lemma set_limit_offset: "set (limit_offset l off rows) \<subseteq> set rows"
proof -
  have "set (take (nat l) (drop (nat off) rows)) \<subseteq> set rows"
    using set_take_subset set_drop_subset by fast
  then show ?thesis
    using set_drop_subset [of "nat off" rows] by (simp add: limit_offset_def Let_def)
qed

lemma set_left_join: "fst ` set (left_join on xs ys) \<subseteq> set xs"
  by (induction xs) (auto simp: left_join_def split: list.splits)

lemma aligned_push:
  "aligned j q \<Longrightarrow> length vs = placeholders c \<Longrightarrow> aligned j (push_filter c vs q)"
  by (simp add: aligned_def push_filter_def)

lemma aligned_status: "aligned j q \<Longrightarrow> aligned j (status_filter st q)"
  by (auto simp: status_filter_def aligned_push split: option.splits)

lemma aligned_time: "aligned j q \<Longrightarrow> time_filter clk req q = Some q' \<Longrightarrow> aligned j q'"
  by (auto simp: time_filter_def aligned_push split: option.splits if_splits)

lemma aligned_values:
  assumes "aligned j q"
  shows "where_values j (whereConditions q) (queryParams q @ extra) = countParams q"
    and "where_values 0 (whereConditions q) (countParams q) = countParams q"
  using assms by (simp_all add: aligned_def where_values_def)

lemma uploads_build_aligned:
  assumes "uploads_build clk uid req = Some q"
  obtains q0 l off where "aligned 0 q0" "whereConditions q = whereConditions q0"
    "countParams q = countParams q0" "queryParams q = queryParams q0 @ [V_int l, V_int off]"
    "l = number_or 10 (lq_limit req)"
proof -
  from assms obtain q0 where q0: "time_filter clk req (status_filter (lq_status req)
      \<lparr>whereConditions = [User_id_is], queryParams = [V_int uid], countParams = [V_int uid]\<rparr>) = Some q0"
    and q: "q = q0\<lparr>queryParams := queryParams q0 @
                 [V_int (number_or 10 (lq_limit req)),
                  V_int ((number_or 1 (lq_page req) - 1) * number_or 10 (lq_limit req))]\<rparr>"
    by (auto simp: uploads_build_def)
  have "aligned 0 \<lparr>whereConditions = [User_id_is], queryParams = [V_int uid], countParams = [V_int uid]\<rparr>"
    by (simp add: aligned_def)
  then have "aligned 0 q0"
    using aligned_time [OF aligned_status q0] by simp
  then show ?thesis using q that by simp
qed


lemma own_rows_push: "own_rows_first uid q \<Longrightarrow> own_rows_first uid (push_filter c vs q)"
  by (auto simp: own_rows_first_def push_filter_def)

lemma own_rows_status: "own_rows_first uid q \<Longrightarrow> own_rows_first uid (status_filter st q)"
  by (auto simp: status_filter_def own_rows_push split: option.splits)

lemma own_rows_time:
  "own_rows_first uid q \<Longrightarrow> time_filter clk req q = Some q' \<Longrightarrow> own_rows_first uid q'"
  by (auto simp: time_filter_def own_rows_push split: option.splits if_splits)

lemma uploads_build_own_rows:
  assumes "uploads_build clk uid req = Some q"
  shows "own_rows_first uid q"
proof -
  from assms obtain q0 where q0: "time_filter clk req (status_filter (lq_status req)
      \<lparr>whereConditions = [User_id_is], queryParams = [V_int uid], countParams = [V_int uid]\<rparr>) = Some q0"
    and q: "whereConditions q = whereConditions q0" "countParams q = countParams q0"
    by (auto simp: uploads_build_def)
  have "own_rows_first uid
      \<lparr>whereConditions = [User_id_is], queryParams = [V_int uid], countParams = [V_int uid]\<rparr>"
    by (simp add: own_rows_first_def)
  then have "own_rows_first uid q0"
    using own_rows_time [OF own_rows_status q0] by simp
  then show ?thesis using q by (simp add: own_rows_first_def)
qed

lemma own_rows_where:
  assumes "own_rows_first uid q" "where_holds coerce (whereConditions q) (countParams q) f"
  shows "fu_user_id f = uid"
  using assms by (auto simp: own_rows_first_def)

lemma uploads_shared_values:
  assumes "uploads_build clk uid req = Some q"
  shows "where_values 0 (whereConditions q) (queryParams q) = countParams q"
    and "where_values 0 (whereConditions q) (countParams q) = countParams q"
proof -
  from assms obtain q0 l off where q0: "aligned 0 q0" "whereConditions q = whereConditions q0"
    "countParams q = countParams q0" "queryParams q = queryParams q0 @ [V_int l, V_int off]"
    by (rule uploads_build_aligned)
  show "where_values 0 (whereConditions q) (queryParams q) = countParams q"
    using aligned_values(1) [OF q0(1)] q0 by simp
  show "where_values 0 (whereConditions q) (countParams q) = countParams q"
    using aligned_values(2) [OF q0(1)] q0 by simp
qed


lemma uploads_select_rows:
  assumes "uploads_select coerce db conds params = Some files" "x \<in> set files"
  shows "lf_file x \<in> set (file_uploads db) \<and> bound_where coerce 0 conds params (lf_file x)"
proof -
  let ?joined = "left_join (\<lambda>f u. fu_merchant_id f = u_id u) (file_uploads db) (users db)"
  let ?kept = "filter (\<lambda>(f, u). bound_where coerce 0 conds params f) ?joined"
  from assms(1) obtain l off where files: "files =
      map (\<lambda>(f, u). \<lparr>lf_file = f, lf_merchant_name = map_option username u\<rparr>)
        (limit_offset l off (order_by (\<lambda>a b. listed_before deleted_last (fst a) (fst b)) ?kept))"
    by (auto simp: uploads_select_def split: list.splits sql_value.splits)
  with assms(2) obtain f u where fu: "x = \<lparr>lf_file = f, lf_merchant_name = map_option username u\<rparr>"
    "(f, u) \<in> set (limit_offset l off (order_by (\<lambda>a b. listed_before deleted_last (fst a) (fst b)) ?kept))"
    by auto
  then have "(f, u) \<in> set ?kept"
    using set_limit_offset set_order_by by fast
  then have "(f, u) \<in> set ?joined" "bound_where coerce 0 conds params f"
    by simp_all
  moreover from this(1) have "f \<in> set (file_uploads db)"
    using set_left_join by fastforce
  ultimately show ?thesis using fu(1) by simp
qed

text \<open>
  Claim C3. Whatever the page, limit, status and time filters of the request, every row
  that the customer's file list returns is a row of the table whose \<open>user_id\<close> is the id
  of the caller.
\<close>

theorem customer_list_own_rows:
  assumes "list_uploads coerce clk db uid req = Inr pg"
  shows "list_all (\<lambda>x. lf_file x \<in> set (file_uploads db) \<and> fu_user_id (lf_file x) = uid)
           (pg_items pg)"
proof -
  from assms obtain q where q: "uploads_build clk uid req = Some q"
    and sel: "uploads_select coerce db (whereConditions q) (queryParams q) = Some (pg_items pg)"
    by (auto simp: list_uploads_def split: option.splits)
  have own: "own_rows_first uid q"
    using q by (rule uploads_build_own_rows)
  have vals: "where_values 0 (whereConditions q) (queryParams q) = countParams q"
    using q by (rule uploads_shared_values(1))
  show ?thesis
    unfolding list_all_iff
  proof
    fix x assume "x \<in> set (pg_items pg)"
    from uploads_select_rows [OF sel this]
    have row: "lf_file x \<in> set (file_uploads db)"
      and holds: "where_holds coerce (whereConditions q) (countParams q) (lf_file x)"
      by (simp_all add: bound_where_def vals)
    from own_rows_where [OF own holds] row
    show "lf_file x \<in> set (file_uploads db) \<and> fu_user_id (lf_file x) = uid" by simp
  qed
qed

theorem customer_list_own_rows_witness:
  "\<exists>pg. list_uploads sqlite_int_of_text demo_clock demo_shop 4
           (demo_list\<lparr>lq_page := None, lq_status := None\<rparr>) = Inr pg \<and>
        map (fu_id \<circ> lf_file) (pg_items pg) = [7, 8] \<and>
        map fu_user_id (file_uploads demo_shop) = [4, 4, 4, 5] \<and>
        list_all (\<lambda>x. lf_file x \<in> set (file_uploads demo_shop) \<and> fu_user_id (lf_file x) = 4)
          (pg_items pg)"
proof -
  have "map_sum id (\<lambda>p. map (fu_id \<circ> lf_file) (pg_items p))
          (list_uploads sqlite_int_of_text demo_clock demo_shop 4
             (demo_list\<lparr>lq_page := None, lq_status := None\<rparr>)) = Inr [7, 8]"
    by code_simp
  then obtain pg where run: "list_uploads sqlite_int_of_text demo_clock demo_shop 4
           (demo_list\<lparr>lq_page := None, lq_status := None\<rparr>) = Inr pg"
    and ids: "map (fu_id \<circ> lf_file) (pg_items pg) = [7, 8]"
    by (cases "list_uploads sqlite_int_of_text demo_clock demo_shop 4
           (demo_list\<lparr>lq_page := None, lq_status := None\<rparr>)") auto
  have owners: "map fu_user_id (file_uploads demo_shop) = [4, 4, 4, 5]"
    by code_simp
  show ?thesis
    by (rule exI [of _ pg]) (intro conjI run ids owners customer_list_own_rows [OF run])
qed









section \<open>Properties of the downloads\<close>

lemma ledger_rows_append: "ledger_rows (xs @ ys) = ledger_rows xs @ ledger_rows ys"
  by (induction xs rule: ledger_rows.induct) simp_all

lemma archived_names_append: "archived_names (xs @ ys) = archived_names xs @ archived_names ys"
  by (induction xs rule: archived_names.induct) simp_all

lemma ledger_rows_records: "ledger_rows (map (\<lambda>x. Record_download (row x)) xs) = map row xs"
  by (induction xs) simp_all

lemma archived_names_records: "archived_names (map (\<lambda>x. Record_download (row x)) xs) = []"
  by (induction xs) simp_all

lemma add_files_fold:
  "fold (\<lambda>photo (acts, addedCount).
             if disk (file_name photo)
             then (acts @ [Archive_file (file_name photo) (original_name photo)], addedCount + 1)
             else (acts @ [Record_download (download_row (fu_id photo) mid Batch Failed None)],
                   addedCount))
       photos (acts0, n0) =
   (acts0 @ map (\<lambda>photo. if disk (file_name photo)
                          then Archive_file (file_name photo) (original_name photo)
                          else Record_download (download_row (fu_id photo) mid Batch Failed None))
              photos,
    n0 + length (filter (\<lambda>photo. disk (file_name photo)) photos))"
  by (induction photos arbitrary: acts0 n0) simp_all

lemma add_files_eq:
  "add_files disk mid photos =
   (map (\<lambda>photo. if disk (file_name photo)
                  then Archive_file (file_name photo) (original_name photo)
                  else Record_download (download_row (fu_id photo) mid Batch Failed None)) photos,
    length (filter (\<lambda>photo. disk (file_name photo)) photos))"
  by (simp add: add_files_def add_files_fold)

lemma loop_ledger:
  "ledger_rows (map (\<lambda>photo. if disk (file_name photo)
                  then Archive_file (file_name photo) (original_name photo)
                  else Record_download (download_row (fu_id photo) mid Batch Failed None)) photos) =
   map (\<lambda>photo. download_row (fu_id photo) mid Batch Failed None)
     (filter (\<lambda>photo. \<not> disk (file_name photo)) photos)"
  by (induction photos) simp_all

lemma loop_archive:
  "archived_names (map (\<lambda>photo. if disk (file_name photo)
                  then Archive_file (file_name photo) (original_name photo)
                  else Record_download (download_row (fu_id photo) mid Batch Failed None)) photos) =
   map original_name (filter (\<lambda>photo. disk (file_name photo)) photos)"
  by (induction photos) simp_all

text \<open>
  An archive that ends: the files on disk are in it, each missing file has a failed row,
  and the handler of \<open>end\<close> gives every photo of the query a success row, the missing ones
  included.
\<close>

lemma build_archive_end:
  assumes "filter (\<lambda>photo. disk (file_name photo)) photos \<noteq> []"
    and "archive_result xfer = Archive_end"
  shows "archived_names (build_archive disk xfer mid zipFileName opn photos) =
           map original_name (filter (\<lambda>photo. disk (file_name photo)) photos)"
    and "ledger_rows (build_archive disk xfer mid zipFileName opn photos) =
           map (\<lambda>photo. download_row (fu_id photo) mid Batch Failed None)
             (filter (\<lambda>photo. \<not> disk (file_name photo)) photos) @
           map (\<lambda>photo. download_row (fu_id photo) mid Batch Success (Some zipFileName)) photos"
proof -
  from assms(1) have ne: "photos \<noteq> []" by auto
  show "archived_names (build_archive disk xfer mid zipFileName opn photos) =
           map original_name (filter (\<lambda>photo. disk (file_name photo)) photos)"
    using assms ne
    by (simp add: build_archive_def add_files_eq archived_names_append loop_archive
        archived_names_records)
  show "ledger_rows (build_archive disk xfer mid zipFileName opn photos) =
           map (\<lambda>photo. download_row (fu_id photo) mid Batch Failed None)
             (filter (\<lambda>photo. \<not> disk (file_name photo)) photos) @
           map (\<lambda>photo. download_row (fu_id photo) mid Batch Success (Some zipFileName)) photos"
    using assms ne
    by (simp add: build_archive_def add_files_eq ledger_rows_append loop_ledger
        ledger_rows_records)
qed

text \<open>No file on disk: a failed row for each photo, no archive, status 404.\<close>

lemma build_archive_nothing:
  assumes "photos \<noteq> []" and "filter (\<lambda>photo. disk (file_name photo)) photos = []"
  shows "build_archive disk xfer mid zipFileName opn photos =
           map (\<lambda>photo. Record_download (download_row (fu_id photo) mid Batch Failed None)) photos @
           [Archive_destroy, Respond 404]"
proof -
  have "\<And>photo. photo \<in> set photos \<Longrightarrow> \<not> disk (file_name photo)"
    using assms(2) by (simp add: filter_empty_conv)
  then have "map (\<lambda>photo. if disk (file_name photo)
                  then Archive_file (file_name photo) (original_name photo)
                  else Record_download (download_row (fu_id photo) mid Batch Failed None)) photos =
      map (\<lambda>photo. Record_download (download_row (fu_id photo) mid Batch Failed None)) photos"
    by (intro map_cong refl) simp
  then show ?thesis
    using assms by (simp add: build_archive_def add_files_eq)
qed

text \<open>
  Claim C2, at an input where the code departs from it. Merchant 3 downloads the photos
  of customer 4: two active files, 7 and 8, of which the file of 8 is missing on disk
  (N = 2). In both batch handlers the archive holds the one file that exists and file 8
  gets its failed row, but the ledger gains two success rows, one of them for the
  missing file 8, where the claim has N - 1 = 1.
\<close>

theorem batch_success_row_for_missing_file:
  "map fu_id (active_photos sqlite_int_of_text demo_shop ''4'' 3) = [7, 8] \<and>
   archived_names (download_all sqlite_int_of_text demo_disk demo_transfer demo_shop
      demo_merchant ''4'' ''1759500000000'') = [''a.jpg''] \<and>
   map (\<lambda>r. (dl_file_id r, dl_status r))
     (ledger_rows (download_all sqlite_int_of_text demo_disk demo_transfer demo_shop
        demo_merchant ''4'' ''1759500000000'')) =
     [(8, Failed), (7, Success), (8, Success)] \<and>
   archived_names (download_selected sqlite_int_of_text demo_disk demo_transfer demo_shop
      demo_merchant ''4'' (Some (Q_text ''7,8'')) ''1759500000000'') = [''a.jpg''] \<and>
   map (\<lambda>r. (dl_file_id r, dl_status r))
     (ledger_rows (download_selected sqlite_int_of_text demo_disk demo_transfer demo_shop
        demo_merchant ''4'' (Some (Q_text ''7,8'')) ''1759500000000'')) =
     [(8, Failed), (7, Success), (8, Success)]"
  by code_simp

lemma selected_single:
  assumes "who = Some p" "p_role p = Merchant" "photo_id_array photoIds = Some ids" "ids \<noteq> []"
    and "selected_photos coerce db ids customerId (p_id p) = [photo]"
  shows "download_selected coerce disk xfer db who customerId photoIds stamp =
           send_single disk (p_id p) photo"
  using assms by (simp add: download_selected_def)

text \<open>
  Claim C6, where it fails as stated. Customer 5 has exactly one active file with
  merchant 3, and it is on disk; the download of all her photos adds it to an archive
  and finalizes the archive: nothing is sent directly.
\<close>

theorem download_all_single_asset_zipped:
  "map fu_id (active_photos sqlite_int_of_text demo_shop ''5'' 3) = [10] \<and>
   demo_disk ''1759392000000_1_d.jpg'' \<and>
   download_all sqlite_int_of_text demo_disk demo_transfer demo_shop demo_merchant ''5''
       ''1759500000000'' =
     [Archive_file ''1759392000000_1_d.jpg'' ''d.jpg'', Archive_finalize,
      Record_download (download_row 10 3 Batch Success (Some ''customer2_photos_1759500000000.zip'')),
      Log_operation 3 Op_batch_download]"
  by code_simp

text \<open>
  Claim C6 as amended. In the download of an explicit id set, whenever exactly one asset
  remains after resolving and filtering, no archive is built: the single file is handed
  to \<open>res.sendFile\<close> when it is on disk, and the answer is status 404 when it is not. The
  download of all active assets of a customer builds an archive also when exactly one
  asset remains: a file on disk is added to the archive, which is then finalized.
\<close>

theorem single_selected_asset_sent_directly:
  assumes "who = Some p" and "p_role p = Merchant"
  shows "(photo_id_array photoIds = Some ids \<and> ids \<noteq> [] \<and>
            selected_photos coerce db ids customerId (p_id p) = [photo] \<longrightarrow>
          download_selected coerce disk xfer db who customerId photoIds stamp =
            (if disk (file_name photo)
             then [Record_download (download_row (fu_id photo) (p_id p) Single Success
                      (Some (original_name photo))),
                   Log_operation (p_id p) Op_download,
                   Send_file (file_name photo)]
             else [Record_download (download_row (fu_id photo) (p_id p) Single Failed None),
                   Respond 404])) \<and>
         (active_photos coerce db customerId (p_id p) = [photo] \<and> disk (file_name photo) \<longrightarrow>
          take 2 (download_all coerce disk xfer db who customerId stamp) =
            [Archive_file (file_name photo) (original_name photo), Archive_finalize])"
proof (intro conjI impI)
  assume "photo_id_array photoIds = Some ids \<and> ids \<noteq> [] \<and>
            selected_photos coerce db ids customerId (p_id p) = [photo]"
  then have "download_selected coerce disk xfer db who customerId photoIds stamp =
      send_single disk (p_id p) photo"
    using selected_single [OF assms] by blast
  then show "download_selected coerce disk xfer db who customerId photoIds stamp =
            (if disk (file_name photo)
             then [Record_download (download_row (fu_id photo) (p_id p) Single Success
                      (Some (original_name photo))),
                   Log_operation (p_id p) Op_download,
                   Send_file (file_name photo)]
             else [Record_download (download_row (fu_id photo) (p_id p) Single Failed None),
                   Respond 404])"
    by (simp add: send_single_def)
next
  assume "active_photos coerce db customerId (p_id p) = [photo] \<and> disk (file_name photo)"
  then show "take 2 (download_all coerce disk xfer db who customerId stamp) =
            [Archive_file (file_name photo) (original_name photo), Archive_finalize]"
    using assms by (simp add: download_all_def build_archive_def add_files_eq)
qed

text \<open>
  Claim C9. In the selected download, when the resolved set is exactly one asset whose
  file is on disk, the handler records a ledger row of type \<open>single\<close> and status
  \<open>success\<close>, logs, and only then hands the file to \<open>res.sendFile\<close>; these three are all
  it does, whatever becomes of the transfer, so a transfer that fails leaves the success
  row as the only row of the request.
\<close>

theorem selected_single_recorded_before_send:
  assumes "who = Some p" and "p_role p = Merchant"
    and "photo_id_array photoIds = Some ids" and "ids \<noteq> []"
    and "selected_photos coerce db ids customerId (p_id p) = [photo]"
    and "disk (file_name photo)"
  shows "download_selected coerce disk xfer db who customerId photoIds stamp =
           [Record_download (download_row (fu_id photo) (p_id p) Single Success
               (Some (original_name photo))),
            Log_operation (p_id p) Op_download,
            Send_file (file_name photo)] \<and>
         dl_type (download_row (fu_id photo) (p_id p) Single Success (Some (original_name photo)))
           = Single \<and>
         dl_status (download_row (fu_id photo) (p_id p) Single Success (Some (original_name photo)))
           = Success \<and>
         ledger_rows (download_selected coerce disk (xfer\<lparr>file_sent := False\<rparr>) db who customerId
             photoIds stamp) =
           [download_row (fu_id photo) (p_id p) Single Success (Some (original_name photo))]"
proof -
  have run: "\<And>x. download_selected coerce disk x db who customerId photoIds stamp =
           [Record_download (download_row (fu_id photo) (p_id p) Single Success
               (Some (original_name photo))),
            Log_operation (p_id p) Op_download,
            Send_file (file_name photo)]"
    using selected_single [OF assms(1-5)] assms(6) by (simp add: send_single_def)
  show ?thesis
    by (simp add: run download_row_def)
qed

lemma demo_merchant_who: "demo_merchant = Some \<lparr>p_id = 3, p_role = Merchant\<rparr>"
  by (simp add: demo_merchant_def)

lemma demo_selected:
  "photo_id_array (Some (Q_text ''7'')) = Some [7]"
  "photo_id_array (Some (Q_text ''8'')) = Some [8]"
  "selected_photos sqlite_int_of_text demo_shop [7] ''4'' 3 = [demo_file 7 ''a.jpg'' ''active'' (Some 9)]"
  "selected_photos sqlite_int_of_text demo_shop [8] ''4'' 3 = [demo_file 8 ''b.jpg'' ''active'' (Some 10)]"
  "active_photos sqlite_int_of_text demo_shop ''5'' 3 =
     [(demo_file 10 ''d.jpg'' ''active'' None)\<lparr>fu_user_id := 5\<rparr>]"
  by code_simp+

lemma demo_on_disk:
  "demo_disk (file_name (demo_file 7 ''a.jpg'' ''active'' (Some 9)))"
  "\<not> demo_disk (file_name (demo_file 8 ''b.jpg'' ''active'' (Some 10)))"
  "demo_disk (file_name ((demo_file 10 ''d.jpg'' ''active'' None)\<lparr>fu_user_id := 5\<rparr>))"
  by code_simp+

theorem single_selected_asset_sent_directly_witness:
  "download_selected sqlite_int_of_text demo_disk demo_transfer demo_shop demo_merchant ''4''
       (Some (Q_text ''7'')) ''1759500000000'' =
     [Record_download (download_row 7 3 Single Success (Some ''a.jpg'')),
      Log_operation 3 Op_download,
      Send_file ''1759392000000_1_a.jpg''] \<and>
   download_selected sqlite_int_of_text demo_disk demo_transfer demo_shop demo_merchant ''4''
       (Some (Q_text ''8'')) ''1759500000000'' =
     [Record_download (download_row 8 3 Single Failed None), Respond 404] \<and>
   take 2 (download_all sqlite_int_of_text demo_disk demo_transfer demo_shop demo_merchant ''5''
       ''1759500000000'') =
     [Archive_file ''1759392000000_1_d.jpg'' ''d.jpg'', Archive_finalize]"
proof -
  let ?p = "\<lparr>p_id = 3, p_role = Merchant\<rparr>"
  have role: "p_role ?p = Merchant" by simp
  note amended = single_selected_asset_sent_directly
    [where coerce = sqlite_int_of_text and disk = demo_disk and db = demo_shop,
     OF demo_merchant_who role]
  note amended7 = single_selected_asset_sent_directly
    [where coerce = sqlite_int_of_text and disk = demo_disk and db = demo_shop and ids = "[7]",
     OF demo_merchant_who role]
  note amended8 = single_selected_asset_sent_directly
    [where coerce = sqlite_int_of_text and disk = demo_disk and db = demo_shop and ids = "[8]",
     OF demo_merchant_who role]
  have "download_selected sqlite_int_of_text demo_disk demo_transfer demo_shop demo_merchant ''4''
       (Some (Q_text ''7'')) ''1759500000000'' =
     (if demo_disk (file_name (demo_file 7 ''a.jpg'' ''active'' (Some 9)))
      then [Record_download (download_row (fu_id (demo_file 7 ''a.jpg'' ''active'' (Some 9))) (p_id ?p)
               Single Success (Some (original_name (demo_file 7 ''a.jpg'' ''active'' (Some 9))))),
            Log_operation (p_id ?p) Op_download,
            Send_file (file_name (demo_file 7 ''a.jpg'' ''active'' (Some 9)))]
      else [Record_download (download_row (fu_id (demo_file 7 ''a.jpg'' ''active'' (Some 9))) (p_id ?p)
               Single Failed None), Respond 404])"
    by (rule amended7 [THEN conjunct1, THEN mp]) (simp add: demo_selected)
  then have 1: "download_selected sqlite_int_of_text demo_disk demo_transfer demo_shop demo_merchant
       ''4'' (Some (Q_text ''7'')) ''1759500000000'' =
     [Record_download (download_row 7 3 Single Success (Some ''a.jpg'')),
      Log_operation 3 Op_download,
      Send_file ''1759392000000_1_a.jpg'']"
    by (simp add: demo_on_disk) (simp add: demo_file_def)
  have "download_selected sqlite_int_of_text demo_disk demo_transfer demo_shop demo_merchant ''4''
       (Some (Q_text ''8'')) ''1759500000000'' =
     (if demo_disk (file_name (demo_file 8 ''b.jpg'' ''active'' (Some 10)))
      then [Record_download (download_row (fu_id (demo_file 8 ''b.jpg'' ''active'' (Some 10))) (p_id ?p)
               Single Success (Some (original_name (demo_file 8 ''b.jpg'' ''active'' (Some 10))))),
            Log_operation (p_id ?p) Op_download,
            Send_file (file_name (demo_file 8 ''b.jpg'' ''active'' (Some 10)))]
      else [Record_download (download_row (fu_id (demo_file 8 ''b.jpg'' ''active'' (Some 10))) (p_id ?p)
               Single Failed None), Respond 404])"
    by (rule amended8 [THEN conjunct1, THEN mp]) (simp add: demo_selected)
  then have 2: "download_selected sqlite_int_of_text demo_disk demo_transfer demo_shop demo_merchant
       ''4'' (Some (Q_text ''8'')) ''1759500000000'' =
     [Record_download (download_row 8 3 Single Failed None), Respond 404]"
    by (simp add: demo_on_disk) (simp add: demo_file_def)
  have "take 2 (download_all sqlite_int_of_text demo_disk demo_transfer demo_shop demo_merchant ''5''
       ''1759500000000'') =
     [Archive_file (file_name ((demo_file 10 ''d.jpg'' ''active'' None)\<lparr>fu_user_id := 5\<rparr>))
        (original_name ((demo_file 10 ''d.jpg'' ''active'' None)\<lparr>fu_user_id := 5\<rparr>)),
      Archive_finalize]"
  proof (rule amended [THEN conjunct2, THEN mp], intro conjI)
    show "active_photos sqlite_int_of_text demo_shop ''5'' (p_id ?p) =
        [(demo_file 10 ''d.jpg'' ''active'' None)\<lparr>fu_user_id := 5\<rparr>]"
      using demo_selected(5) by simp
    show "demo_disk (file_name ((demo_file 10 ''d.jpg'' ''active'' None)\<lparr>fu_user_id := 5\<rparr>))"
      by (rule demo_on_disk(3))
  qed
  then have 3: "take 2 (download_all sqlite_int_of_text demo_disk demo_transfer demo_shop
       demo_merchant ''5'' ''1759500000000'') =
     [Archive_file ''1759392000000_1_d.jpg'' ''d.jpg'', Archive_finalize]"
    by (simp add: demo_file_def)
  from 1 2 3 show ?thesis by (intro conjI)
qed

theorem selected_single_recorded_before_send_witness:
  "download_selected sqlite_int_of_text demo_disk demo_transfer demo_shop demo_merchant ''4''
       (Some (Q_text ''7'')) ''1759500000000'' =
     [Record_download (download_row 7 3 Single Success (Some ''a.jpg'')),
      Log_operation 3 Op_download,
      Send_file ''1759392000000_1_a.jpg''] \<and>
   dl_type (download_row 7 3 Single Success (Some ''a.jpg'')) = Single \<and>
   dl_status (download_row 7 3 Single Success (Some ''a.jpg'')) = Success \<and>
   ledger_rows (download_selected sqlite_int_of_text demo_disk (demo_transfer\<lparr>file_sent := False\<rparr>)
       demo_shop demo_merchant ''4'' (Some (Q_text ''7'')) ''1759500000000'') =
     [download_row 7 3 Single Success (Some ''a.jpg'')]"
proof -
  let ?p = "\<lparr>p_id = 3, p_role = Merchant\<rparr>"
  have role: "p_role ?p = Merchant" by simp
  have ne: "[7::int] \<noteq> []" by simp
  have sel: "selected_photos sqlite_int_of_text demo_shop [7] ''4'' (p_id ?p) =
      [demo_file 7 ''a.jpg'' ''active'' (Some 9)]"
    by (simp add: demo_selected)
  note inst = selected_single_recorded_before_send
    [where coerce = sqlite_int_of_text and disk = demo_disk and db = demo_shop
       and xfer = demo_transfer and stamp = "''1759500000000''",
     OF demo_merchant_who role demo_selected(1) ne sel demo_on_disk(1)]
  have cols: "fu_id (demo_file 7 ''a.jpg'' ''active'' (Some 9)) = 7"
    "original_name (demo_file 7 ''a.jpg'' ''active'' (Some 9)) = ''a.jpg''"
    "file_name (demo_file 7 ''a.jpg'' ''active'' (Some 9)) = ''1759392000000_1_a.jpg''"
    "p_id ?p = 3"
    by (simp_all add: demo_file_def)
  from inst show ?thesis
    unfolding cols by blast
qed

section \<open>Actions and the database\<close>

text \<open>The ledger after a run of actions is the ledger before it plus the rows of the run.\<close>

lemma perform_ledger:
  "download_status (perform acts db) = download_status db @ ledger_rows acts"
  by (induction acts db rule: perform.induct) (simp_all add: logOperation_def)

lemma perform_files:
  "file_uploads (perform acts db) = file_uploads db \<and> users (perform acts db) = users db"
  by (induction acts db rule: perform.induct) (simp_all add: logOperation_def)

text \<open>
  The download of one photo, for contrast: its row is written after the transfer, so a
  transfer that fails leaves a failed row.
\<close>

lemma download_photo_failed_transfer:
  assumes "who = Some p" "p_role p = Merchant"
    and "find (\<lambda>f. coerce photoId = Some (fu_id f) \<and> fu_merchant_id f = p_id p \<and>
                    fu_status f = ''active'') (file_uploads db) = Some photo"
    and "disk (file_name photo)" and "\<not> file_sent xfer"
  shows "download_photo coerce dirname disk xfer db who photoId =
           [Send_file (file_name photo),
            Record_download (download_row (fu_id photo) (p_id p) Single Failed None)]"
  using assms by (simp add: download_photo_def)

lemma upload_rows_appended:
  "\<exists>new. insert_files uid mid rem t fs rows = rows @ new \<and> length new = length fs"
proof (induction fs arbitrary: rows)
  case Nil
  then show ?case by simp
next
  case (Cons f fs)
  from Cons.IH [of "rows @ [new_row (next_id rows) uid mid rem t f]"]
  obtain new where "insert_files uid mid rem t fs (rows @ [new_row (next_id rows) uid mid rem t f]) =
      (rows @ [new_row (next_id rows) uid mid rem t f]) @ new" "length new = length fs"
    by blast
  then show ?case by simp
qed

end
